theory Spec2Isabelle
  imports Complex_Main "HOL-Library.Multiset"
begin

section \<open>The form compiler driver (tsfc/driver.py)\<close>

text \<open>
  The driver turns one group of integrals of a UFL form into one assembly kernel.
  It calls into the other modules of the compiler (the lowering engine \<open>fem\<close>, the
  optimiser \<open>opt\<close>, the scheduler \<open>sch\<close>, \<open>impero_utils\<close>, the COFFEE generator,
  \<open>kernel_interface\<close>, the quadrature selector) and into UFL. Those collaborators are
  parameters here, collected in the record \<open>env\<close>, and are total functions of their
  arguments; everything the driver itself does is modelled line by line. Python
  exceptions are values of type \<open>error\<close>, the one dictionary the driver mutates in place
  (\<open>parameters\<close>) is passed in and returned.
\<close>

subsection \<open>Python values and errors\<close>

text \<open>
  Modelled from the spec: the class \<open>QuadratureRule\<close> of \<open>tsfc.quadrature\<close> is not among
  the sources; the spec describes it as a value with points and weights.
\<close>

record QuadratureRule =
  points :: "rat list list"
  weights :: "rat list"

text \<open>The values that occur in a parameters dictionary or in the metadata of an integral.\<close>

datatype pyval =
    PNone
  | PBool bool
  | PInt int
  | PStr string
  | PRule QuadratureRule

type_synonym params = "string \<rightharpoonup> pyval"

datatype error =
    KeyError string
  | IndexError
  | ValueError string
  | AttributeError string
  | UnboundLocalError string

text \<open>Python truthiness, as used by \<open>if parameters["unroll_indexsum"]\<close>.\<close>

fun truthy :: "pyval \<Rightarrow> bool" where
  "truthy PNone = False"
| "truthy (PBool b) = b"
| "truthy (PInt i) = (i \<noteq> 0)"
| "truthy (PStr s) = (s \<noteq> [])"
| "truthy (PRule q) = True"


text \<open>What \<open>type(v)\<close> prints as, for the message of the \<open>ValueError\<close>.\<close>

fun type_repr :: "pyval \<Rightarrow> string" where
  "type_repr PNone = ''<type 'NoneType'>''"
| "type_repr (PBool b) = ''<type 'bool'>''"
| "type_repr (PInt i) = ''<type 'int'>''"
| "type_repr (PStr s) = ''<type 'str'>''"
| "type_repr (PRule q) = ''<class 'tsfc.quadrature.QuadratureRule'>''"

text \<open>Decimal rendering, for the formats \<open>%d\<close> and \<open>%s\<close>.\<close>

fun string_of_nat :: "nat \<Rightarrow> string" where
  "string_of_nat n =
     (if n < 10 then [char_of (48 + n)]
      else string_of_nat (n div 10) @ [char_of (48 + n mod 10)])"

declare string_of_nat.simps [simp del]

fun py_str :: "pyval \<Rightarrow> string" where
  "py_str PNone = ''None''"
| "py_str (PBool b) = (if b then ''True'' else ''False'')"
| "py_str (PInt i) = (if i < 0 then ''-'' @ string_of_nat (nat (- i)) else string_of_nat (nat i))"
| "py_str (PStr s) = s"
| "py_str (PRule q) = ''<QuadratureRule>''"

subsection \<open>GEM expressions and COFFEE syntax trees\<close>

text \<open>
  An entry of a multi-index is an \<open>Index\<close> object or a fixed integer; the driver tells
  them apart with \<open>isinstance(index, gem.Index)\<close>.
\<close>

datatype 'i mindex = MIndex 'i | MInt int

fun is_Index :: "'i mindex \<Rightarrow> bool" where
  "is_Index (MIndex i) = True"
| "is_Index (MInt n) = False"

text \<open>
  Modelled from the spec: the node classes of \<open>tsfc.gem\<close> are not among the sources. The
  spec gives the variants Literal, Variable, Sum, Product, Division, IndexSum, Indexed and
  ComponentTensor; the driver also builds \<open>gem.Zero()\<close>.
\<close>

datatype 'i gem =
    Zero
  | Literal rat
  | Variable string
  | Sum "'i gem" "'i gem"
  | Product "'i gem" "'i gem"
  | Division "'i gem" "'i gem"
  | IndexSum "'i gem" 'i
  | Indexed "'i gem" "'i mindex list"
  | ComponentTensor "'i gem" "'i list"

text \<open>
  Modelled from the spec: the attribute \<open>free_indices\<close> of a node, "the indices appearing
  unsummed", each listed once. The order of this list is one arrangement of the set; a
  run presents it rearranged (see \<open>listing\<close> below).
\<close>

fun free_indices :: "'i gem \<Rightarrow> 'i list" where
  "free_indices Zero = []"
| "free_indices (Literal c) = []"
| "free_indices (Variable v) = []"
| "free_indices (Sum a b) = List.union (free_indices a) (free_indices b)"
| "free_indices (Product a b) = List.union (free_indices a) (free_indices b)"
| "free_indices (Division a b) = List.union (free_indices a) (free_indices b)"
| "free_indices (IndexSum e i) = removeAll i (free_indices e)"
| "free_indices (Indexed e mi) =
     List.union (free_indices e) (remdups (concat (map (\<lambda>m. case m of MIndex i \<Rightarrow> [i] | MInt n \<Rightarrow> []) mi)))"
| "free_indices (ComponentTensor e is) = filter (\<lambda>i. i \<notin> set is) (free_indices e)"

text \<open>The COFFEE nodes the driver builds or receives.\<close>

datatype coffee =
    Symbol string "nat list"
  | Decl string coffee "string list"
  | Block "coffee list" bool
  | FunDecl string string "coffee list" coffee "string list"
  | For string coffee
  | Stmt string

text \<open>\<open>body.open_scope = False\<close>: only a block carries the flag in this datatype.\<close>

fun set_open_scope :: "bool \<Rightarrow> coffee \<Rightarrow> coffee" where
  "set_open_scope b (Block stmts s) = Block stmts b"
| "set_open_scope b c = c"

fun fundecl_args :: "coffee \<Rightarrow> coffee list" where
  "fundecl_args (FunDecl ret name args body pred) = args"
| "fundecl_args _ = []"

subsection \<open>Index ordering utilities\<close>

text \<open>
  \<open>numpy.unique(indices, return_index=True)\<close>, by its documented contract: the distinct
  values in sorted order, and for each the position of its first occurrence in the input.
  The order numpy sorts by is the comparison of the objects (for \<open>Index\<close> objects, their
  addresses); it is the parameter \<open>key\<close>.
\<close>

definition first_index :: "'a list \<Rightarrow> 'a \<Rightarrow> nat" where
  "first_index xs x = length (takeWhile (\<lambda>y. y \<noteq> x) xs)"

definition numpy_unique :: "('a \<Rightarrow> nat) \<Rightarrow> 'a list \<Rightarrow> 'a list \<times> nat list" where
  "numpy_unique key xs =
     (let vals = sort_key key (remdups xs) in (vals, map (first_index xs) vals))"

text \<open>
  Lines 225 and 226 of the driver: the duplicates are removed and the order of first
  occurrence is kept, by sorting the positions numpy returned.
\<close>

definition dedup_indices :: "('a \<Rightarrow> nat) \<Rightarrow> 'a list \<Rightarrow> 'a list" where
  "dedup_indices key indices =
     (let unique_indices = snd (numpy_unique key indices)
      in map (\<lambda>j. indices ! j) (sort unique_indices))"

text \<open>The list of first occurrences, written directly.\<close>

fun first_occurrences :: "'a list \<Rightarrow> 'a list" where
  "first_occurrences [] = []"
| "first_occurrences (x # xs) = x # first_occurrences (removeAll x xs)"

definition make_prefix_ordering :: "'a list \<Rightarrow> 'a list \<Rightarrow> 'a list" where
  "make_prefix_ordering indices prefix_ordering =
     prefix_ordering @ filter (\<lambda>k. k \<notin> set prefix_ordering) indices"

text \<open>
  \<open>idx2pos = {idx: pos for pos, idx in enumerate(index_ordering)}\<close>: a later position
  overwrites an earlier one.
\<close>

definition idx2pos :: "'a list \<Rightarrow> 'a \<rightharpoonup> nat" where
  "idx2pos index_ordering = map_of (rev (zip index_ordering [0..<length index_ordering]))"

text \<open>
  \<open>sorted(indices, key=lambda i: idx2pos[i])\<close>: the keys are computed first, a missing one
  raises \<open>KeyError\<close>; the sort is stable.
\<close>

definition make_index_orderer :: "'a list \<Rightarrow> 'a list \<Rightarrow> error + 'a list" where
  "make_index_orderer index_ordering indices =
     (if \<exists>i \<in> set indices. idx2pos index_ordering i = None then Inl (KeyError ''Index'')
      else Inr (sort_key (\<lambda>i. the (idx2pos index_ordering i)) indices))"

subsection \<open>The inputs: UFL form data\<close>

text \<open>
  UFL objects (arguments, coefficients, integrands, elements) are opaque to the driver;
  their type is the parameter \<open>'u\<close>. Only the attributes the driver reads are fields.
\<close>

record ufl_cell =
  cellname :: string

record mesh =
  ufl_cell :: ufl_cell
  coordinate_degree :: int

record 'u integral =
  integrand :: 'u
  metadata :: params
  subdomain_id :: pyval

record 'u integral_data =
  integral_type :: string
  idata_subdomain_id :: pyval
  domain :: mesh
  integrals :: "'u integral list"
  enabled_coefficients :: "bool list"

record 'u form_data =
  arguments :: "'u list"
  reduced_coefficients :: "'u list"
  original_coefficient_positions :: "nat list"
  integral_data :: "'u integral_data list"

record kernel =
  ast :: "coffee option"
  kernel_integral_type :: string
  kernel_subdomain_id :: pyval
  coefficient_numbers :: "nat list"
  oriented :: bool

text \<open>\<open>Kernel(integral_type=..., subdomain_id=...)\<close>.\<close>

definition Kernel :: "string \<Rightarrow> pyval \<Rightarrow> kernel" where
  "Kernel it sid =
     \<lparr>ast = None, kernel_integral_type = it, kernel_subdomain_id = sid,
      coefficient_numbers = [], oriented = False\<rparr>"

subsection \<open>The collaborators\<close>

text \<open>
  The functions of the other modules, as the driver calls them.
  \<open>process\<close> receives the index cache and returns it updated; \<open>emit_operations\<close> and
  \<open>impero_process\<close> receive the callback \<open>get_indices\<close>, which can raise, so they return
  an error or a result. The optional \<open>mode\<close> of \<open>prepare_coefficient\<close> is an option.
\<close>

record ('i, 'u, 't, 'op, 'c) env =
  default_parameters :: params
  compute_form_data :: "'u \<Rightarrow> 'u form_data"
  prepare_arguments :: "string \<Rightarrow> 'u list \<Rightarrow> coffee \<times> coffee list \<times> 'i gem list \<times> coffee list"
  coordinate_coefficient :: "mesh \<Rightarrow> 'u"
  prepare_coefficient :: "string \<Rightarrow> 'u \<Rightarrow> string \<Rightarrow> string option \<Rightarrow> coffee \<times> coffee list \<times> 'i gem"
  create_quadrature :: "ufl_cell \<Rightarrow> string \<Rightarrow> pyval \<Rightarrow> QuadratureRule"
  TabulationManager :: "string \<Rightarrow> ufl_cell \<Rightarrow> rat list list \<Rightarrow> 't"
  replace_coordinates :: "'u \<Rightarrow> 'u \<Rightarrow> 'u"
  gem_Index :: "string \<Rightarrow> 'i"
  process :: "string \<Rightarrow> 'u \<Rightarrow> 't \<Rightarrow> rat list \<Rightarrow> 'i \<Rightarrow> 'i list \<Rightarrow> ('u \<rightharpoonup> 'i gem) \<Rightarrow> ('u \<rightharpoonup> 'i)
              \<Rightarrow> 'i gem list \<times> ('u \<rightharpoonup> 'i)"
  unroll_indexsum :: "'i gem list \<Rightarrow> pyval \<Rightarrow> 'i gem list"
  remove_componenttensors :: "'i gem list \<Rightarrow> 'i gem list"
  traversal :: "'i gem list \<Rightarrow> 'i gem list"
  emit_operations :: "('i gem \<times> 'i gem) list \<Rightarrow> ('i gem \<Rightarrow> error + 'i mindex list) \<Rightarrow> error + 'op list"
  inline_temporaries :: "'i gem list \<Rightarrow> 'op list \<Rightarrow> pyval \<Rightarrow> 'op list"
  impero_process :: "'op list \<Rightarrow> ('i gem \<Rightarrow> error + 'i mindex list) \<Rightarrow> error + 'c"
  generate_coffee :: "'c \<Rightarrow> ('i \<times> string) list \<Rightarrow> coffee"

subsection \<open>What differs from run to run\<close>

text \<open>
  Two things that the driver consults are not determined by its input. \<open>numpy.unique\<close>
  sorts the collected index objects, whose order is that of their addresses; and a node
  lists its free indices in the order in which a set is iterated. Both are
  parameters, the fields of a record: \<open>address\<close> is the sort key, \<open>listing\<close> rearranges
  the list of free indices of a node. In a run of the program \<open>listing\<close> is a permutation
  of every list; where a property needs it, this is a hypothesis.
\<close>

record 'i run =
  address :: "'i mindex \<Rightarrow> nat"
  listing :: "'i list \<Rightarrow> 'i list"

subsection \<open>build_kernel_body\<close>

text \<open>
  \<open>isinstance(node, gem.Variable) and node.name == "cell_orientations"\<close>, and the
  multi-index of an \<open>Indexed\<close> node.
\<close>

fun is_cell_orientations :: "'i gem \<Rightarrow> bool" where
  "is_cell_orientations (Variable v) = (v = ''cell_orientations'')"
| "is_cell_orientations _ = False"

fun indexed_multiindex :: "'i gem \<Rightarrow> 'i mindex list" where
  "indexed_multiindex (Indexed e mi) = mi"
| "indexed_multiindex _ = []"

text \<open>Lines 217 to 226: the indices of all \<open>Indexed\<close> nodes, each once, by first occurrence.\<close>

definition collect_indices ::
  "('i, 'u, 't, 'op, 'c) env \<Rightarrow> 'i run \<Rightarrow> 'i gem list \<Rightarrow> 'i mindex list" where
  "collect_indices env run ir =
     dedup_indices (address run) (concat (map indexed_multiindex (traversal env ir)))"

text \<open>Lines 228 to 232: the ordered index map and the callback \<open>get_indices\<close>.\<close>

definition index_ordering ::
  "('i, 'u, 't, 'op, 'c) env \<Rightarrow> 'i run \<Rightarrow> 'i gem list \<Rightarrow> 'i list \<Rightarrow> 'i mindex list" where
  "index_ordering env run ir prefix_ordering =
     make_prefix_ordering (collect_indices env run ir) (map MIndex prefix_ordering)"

definition get_indices ::
  "'i run \<Rightarrow> 'i mindex list \<Rightarrow> 'i gem \<Rightarrow> error + 'i mindex list" where
  "get_indices run idx_order expr =
     make_index_orderer idx_order (map MIndex (listing run (free_indices expr)))"

text \<open>
  The result is an error, or the pair of the body (\<open>None\<close> when nothing was scheduled)
  and the orientation flag. \<open>index_names\<close> defaults to an empty collection.
\<close>

definition build_kernel_body ::
  "('i, 'u, 't, 'op, 'c) env \<Rightarrow> 'i run \<Rightarrow> 'i gem list \<Rightarrow> 'i gem list \<Rightarrow> 'i list
     \<Rightarrow> pyval \<Rightarrow> ('i \<times> string) list option \<Rightarrow> error + (coffee option \<times> bool)" where
  "build_kernel_body env run return_variables ir0 prefix_ordering coffee_licm index_names =
     (let ir = remove_componenttensors env ir0;
          oriented = (\<exists>node \<in> set (traversal env ir). is_cell_orientations node);
          idx_order = index_ordering env run ir prefix_ordering
      in case emit_operations env (zip return_variables ir) (get_indices run idx_order) of
           Inl e \<Rightarrow> Inl e
         | Inr ops \<Rightarrow>
             if length ops = 0 then Inr (None, False)
             else
               (let ops' = inline_temporaries env ir ops coffee_licm
                in case impero_process env ops' (get_indices run idx_order) of
                     Inl e \<Rightarrow> Inl e
                   | Inr impero_c \<Rightarrow>
                       (let names = (case index_names of None \<Rightarrow> [] | Some ns \<Rightarrow> ns);
                            body = generate_coffee env impero_c names
                        in Inr (Some (set_open_scope False body), oriented))))"

subsection \<open>is_mesh_affine\<close>

definition is_mesh_affine :: "mesh \<Rightarrow> bool" where
  "is_mesh_affine m =
     (let affine_cells = [''interval'', ''triangle'', ''tetrahedron''];
          degree = coordinate_degree m
      in cellname (ufl_cell m) \<in> set affine_cells \<and> degree = 1)"

subsection \<open>compile_integral\<close>

text \<open>
  Lines 72 to 75: the entries \<open>quadrature_degree\<close> and \<open>quadrature_rule\<close> are deleted from
  the dictionary the caller passed when their value is the string \<open>auto\<close>.
\<close>

definition remove_auto :: "params \<Rightarrow> params" where
  "remove_auto parameters =
     (let p1 = (if parameters ''quadrature_degree'' = Some (PStr ''auto'')
                then parameters(''quadrature_degree'' := None) else parameters);
          p2 = (if p1 ''quadrature_rule'' = Some (PStr ''auto'')
                then p1(''quadrature_rule'' := None) else p1)
      in p2)"

text \<open>
  Lines 105 to 121, the loop over \<open>enumerate(idata.enabled_coefficients)\<close>. The state is
  \<open>(coefficient_numbers, arglist, prepare, coefficient_map)\<close>; a position beyond the end of
  \<open>reduced_coefficients\<close> or \<open>original_coefficient_positions\<close> raises \<open>IndexError\<close>.
\<close>

fun coefficient_loop ::
  "('i, 'u, 't, 'op, 'c) env \<Rightarrow> string \<Rightarrow> 'u form_data \<Rightarrow> nat \<Rightarrow> bool list
     \<Rightarrow> nat list \<times> coffee list \<times> coffee list \<times> ('u \<rightharpoonup> 'i gem)
     \<Rightarrow> error + (nat list \<times> coffee list \<times> coffee list \<times> ('u \<rightharpoonup> 'i gem))" where
  "coefficient_loop env it fd i [] st = Inr st"
| "coefficient_loop env it fd i (on # ons) (numbers, arglist, prepare, cmap) =
     (if \<not> on then coefficient_loop env it fd (Suc i) ons (numbers, arglist, prepare, cmap)
      else if length (reduced_coefficients fd) \<le> i then Inl IndexError
      else if length (original_coefficient_positions fd) \<le> i then Inl IndexError
      else
        (let coefficient = reduced_coefficients fd ! i;
             (funarg, prepare_stmts, expression) =
                prepare_coefficient env it coefficient (''w_'' @ string_of_nat i) None
         in coefficient_loop env it fd (Suc i) ons
              (numbers @ [original_coefficient_positions fd ! i], arglist @ [funarg],
               prepare @ prepare_stmts, cmap(coefficient \<mapsto> expression))))"

text \<open>Lines 125 to 132: what is appended to the argument list for a facet integral.\<close>

definition facet_arguments :: "string \<Rightarrow> coffee list" where
  "facet_arguments it =
     (if it \<in> set [''exterior_facet'', ''exterior_facet_vert'']
      then [Decl ''unsigned int'' (Symbol ''facet'' [1]) [''const'']]
      else if it \<in> set [''interior_facet'', ''interior_facet_vert'']
      then [Decl ''unsigned int'' (Symbol ''facet'' [2]) [''const'']]
      else [])"

text \<open>
  Lines 77 to 132: the kernel object, the argument list and the preamble. The local
  variables that the rest of the function reads are the fields of the result. An empty
  list of expressions raises \<open>IndexError\<close> at \<open>expressions[0]\<close>; of the nodes, \<open>Indexed\<close>
  is the one taken to have the attribute \<open>multiindex\<close>, any other first expression raises
  \<open>AttributeError\<close>. The first value of \<open>argument_indices\<close> (line 85) is overwritten on
  line 89 and is left out.
\<close>

record ('i, 'u) prepared =
  p_kernel :: kernel
  p_arglist :: "coffee list"
  p_prepare :: "coffee list"
  p_expressions :: "'i gem list"
  p_finalise :: "coffee list"
  p_argument_indices :: "'i list"
  p_coordinates :: 'u
  p_coefficient_map :: "'u \<rightharpoonup> 'i gem"

definition prepare_kernel ::
  "('i, 'u, 't, 'op, 'c) env \<Rightarrow> 'u integral_data \<Rightarrow> 'u form_data \<Rightarrow> error + ('i, 'u) prepared" where
  "prepare_kernel env idata fd =
     (let it = integral_type idata;
          kernel = Kernel it (idata_subdomain_id idata);
          (funarg, prepare_stmts, expressions, finalise) = prepare_arguments env it (arguments fd)
      in case expressions of
           [] \<Rightarrow> Inl IndexError
         | e0 # _ \<Rightarrow>
            (case e0 of
               Indexed t multiindex \<Rightarrow>
                 (let argument_indices =
                        concat (map (\<lambda>m. case m of MIndex i \<Rightarrow> [i] | MInt n \<Rightarrow> []) multiindex);
                      m = domain idata;
                      coordinates = coordinate_coefficient env m;
                      (funarg_c, prepare_c, expression_c) =
                        (if is_mesh_affine m
                         then prepare_coefficient env it coordinates ''coords'' (Some ''list_tensor'')
                         else prepare_coefficient env it coordinates ''coords'' None)
                  in case coefficient_loop env it fd 0 (enabled_coefficients idata)
                            ([], [funarg, funarg_c], prepare_stmts @ prepare_c,
                             [coordinates \<mapsto> expression_c]) of
                       Inl e \<Rightarrow> Inl e
                     | Inr (numbers, arglist, prepare, cmap) \<Rightarrow>
                         Inr \<lparr>p_kernel = kernel\<lparr>coefficient_numbers := numbers\<rparr>,
                              p_arglist = arglist @ facet_arguments it,
                              p_prepare = prepare,
                              p_expressions = expressions,
                              p_finalise = finalise,
                              p_argument_indices = argument_indices,
                              p_coordinates = coordinates,
                              p_coefficient_map = cmap\<rparr>)
             | _ \<Rightarrow> Inl (AttributeError ''multiindex'')))"

text \<open>
  Lines 144 to 156: the parameters of one integral. The dictionary of the caller is laid
  over the metadata of the integral; the estimated degree is read before the lookup of
  \<open>quadrature_degree\<close>, since it is the argument of \<open>get\<close>, and raises \<open>KeyError\<close> when it
  is missing. The default of \<open>quadrature_rule\<close> is computed in the same way.
\<close>

definition integral_params :: "'u integral \<Rightarrow> params \<Rightarrow> params" where
  "integral_params integral parameters = metadata integral ++ parameters"

definition resolve_quadrature_degree :: "params \<Rightarrow> error + pyval" where
  "resolve_quadrature_degree params =
     (case params ''estimated_polynomial_degree'' of
        None \<Rightarrow> Inl (KeyError ''estimated_polynomial_degree'')
      | Some est \<Rightarrow> Inr (case params ''quadrature_degree'' of Some d \<Rightarrow> d | None \<Rightarrow> est))"

definition resolve_quad_rule ::
  "('i, 'u, 't, 'op, 'c) env \<Rightarrow> ufl_cell \<Rightarrow> string \<Rightarrow> params \<Rightarrow> pyval \<Rightarrow> pyval" where
  "resolve_quad_rule env cell it params quadrature_degree =
     (let default = create_quadrature env cell it quadrature_degree
      in case params ''quadrature_rule'' of Some r \<Rightarrow> r | None \<Rightarrow> PRule default)"

text \<open>
  Lines 143 to 175, the body of the loop over \<open>enumerate(idata.integrals)\<close>. The state is
  \<open>(nonfem_, quadrature_indices, index_cache)\<close>. The test
  \<open>quadrature_index in e.free_indices\<close> is a membership test, the same for every order
  in which the node lists its free indices.
\<close>

fun lower_integral ::
  "('i, 'u, 't, 'op, 'c) env \<Rightarrow> string \<Rightarrow> ufl_cell \<Rightarrow> ('i, 'u) prepared \<Rightarrow> params \<Rightarrow> nat
     \<Rightarrow> 'u integral \<Rightarrow> 'i gem list list \<times> 'i list \<times> ('u \<rightharpoonup> 'i)
     \<Rightarrow> error + ('i gem list list \<times> 'i list \<times> ('u \<rightharpoonup> 'i))" where
  "lower_integral env it cell pre parameters i integral (nonfem_list, quadrature_indices, index_cache) =
     (let params = integral_params integral parameters
      in case resolve_quadrature_degree params of
           Inl e \<Rightarrow> Inl e
         | Inr quadrature_degree \<Rightarrow>
            (case resolve_quad_rule env cell it params quadrature_degree of
               PRule quad_rule \<Rightarrow>
                 (let tabulation_manager = TabulationManager env it cell (points quad_rule);
                      integrand' = replace_coordinates env (integrand integral) (p_coordinates pre);
                      quadrature_index = gem_Index env (''ip'' @ string_of_nat i);
                      (nonfem, index_cache') =
                         process env it integrand' tabulation_manager (weights quad_rule)
                           quadrature_index (p_argument_indices pre) (p_coefficient_map pre)
                           index_cache
                  in case parameters ''unroll_indexsum'' of
                       None \<Rightarrow> Inl (KeyError ''unroll_indexsum'')
                     | Some u \<Rightarrow>
                         (let nonfem' = (if truthy u then unroll_indexsum env nonfem u else nonfem)
                          in Inr (nonfem_list @
                                    [map (\<lambda>e. if quadrature_index \<in> set (free_indices e)
                                               then IndexSum e quadrature_index else e) nonfem'],
                                  quadrature_indices @ [quadrature_index],
                                  index_cache')))
             | other \<Rightarrow>
                 Inl (ValueError (''Expected to find a QuadratureRule object, not a '' @ type_repr other))))"

fun integrals_loop ::
  "('i, 'u, 't, 'op, 'c) env \<Rightarrow> string \<Rightarrow> ufl_cell \<Rightarrow> ('i, 'u) prepared \<Rightarrow> params \<Rightarrow> nat
     \<Rightarrow> 'u integral list \<Rightarrow> 'i gem list list \<times> 'i list \<times> ('u \<rightharpoonup> 'i)
     \<Rightarrow> error + ('i gem list list \<times> 'i list \<times> ('u \<rightharpoonup> 'i))" where
  "integrals_loop env it cell pre parameters i [] st = Inr st"
| "integrals_loop env it cell pre parameters i (integral # rest) st =
     (case lower_integral env it cell pre parameters i integral st of
        Inl e \<Rightarrow> Inl e
      | Inr st' \<Rightarrow> integrals_loop env it cell pre parameters (Suc i) rest st')"

text \<open>
  \<open>zip(*nonfem_)\<close>: the tuples of the entries at the same position, as many as the
  shortest list has; no list at all gives the empty list.
\<close>

fun zip_star :: "'a list list \<Rightarrow> 'a list list" where
  "zip_star [] = []"
| "zip_star [xs] = map (\<lambda>x. [x]) xs"
| "zip_star (xs # xss) = map (\<lambda>(x, t). x # t) (zip xs (zip_star xss))"

text \<open>Line 178: \<open>reduce(gem.Sum, e, gem.Zero())\<close> for each tuple \<open>e\<close>.\<close>

definition sum_restrictions :: "'i gem list list \<Rightarrow> 'i gem list" where
  "sum_restrictions nonfem_list = map (\<lambda>e. foldl Sum Zero e) (zip_star nonfem_list)"

text \<open>Lines 180 to 185: the names given to the argument and quadrature indices.\<close>

definition make_index_names :: "'i list \<Rightarrow> 'i list \<Rightarrow> ('i \<times> string) list" where
  "make_index_names argument_indices quadrature_indices =
     zip argument_indices [''j'', ''k''] @
     (if length quadrature_indices = 1 then [(quadrature_indices ! 0, ''ip'')]
      else map (\<lambda>(i, quadrature_index). (quadrature_index, ''ip_'' @ string_of_nat i))
             (zip [0..<length quadrature_indices] quadrature_indices))"

text \<open>\<open>arglist.insert(2, decl)\<close>.\<close>

definition insert_at :: "nat \<Rightarrow> 'a \<Rightarrow> 'a list \<Rightarrow> 'a list" where
  "insert_at n x xs = take n xs @ [x] @ drop n xs"

text \<open>
  Lines 187 to 204, given the state the loop left. The name of the kernel reads the loop
  variable \<open>integral\<close>, which is unbound when the group has no integral.
\<close>

definition finish_kernel ::
  "('i, 'u, 't, 'op, 'c) env \<Rightarrow> 'i run \<Rightarrow> 'u integral_data \<Rightarrow> string \<Rightarrow> params
     \<Rightarrow> ('i, 'u) prepared \<Rightarrow> 'i gem list list \<Rightarrow> 'i list \<Rightarrow> error + kernel option" where
  "finish_kernel env run idata prefix parameters pre nonfem_list quadrature_indices =
     (let nonfem = sum_restrictions nonfem_list;
          argument_indices = p_argument_indices pre;
          index_names = make_index_names argument_indices quadrature_indices
      in case parameters ''coffee_licm'' of
           None \<Rightarrow> Inl (KeyError ''coffee_licm'')
         | Some coffee_licm \<Rightarrow>
            (case build_kernel_body env run (p_expressions pre) nonfem
                    (quadrature_indices @ argument_indices) coffee_licm (Some index_names) of
               Inl e \<Rightarrow> Inl e
             | Inr (None, orient) \<Rightarrow> Inr None
             | Inr (Some body, orient) \<Rightarrow>
                (let arglist =
                       (if orient
                        then insert_at 2 (Decl ''int *restrict *restrict''
                                            (Symbol ''cell_orientations'' []) [''const''])
                               (p_arglist pre)
                        else p_arglist pre)
                 in case integrals idata of
                      [] \<Rightarrow> Inl (UnboundLocalError ''integral'')
                    | _ \<Rightarrow>
                       (let integral = last (integrals idata);
                            funname = prefix @ ''_'' @ integral_type idata @ ''_integral_'' @
                                      py_str (subdomain_id integral)
                        in Inr (Some ((p_kernel pre)
                                 \<lparr>oriented := orient,
                                  ast := Some (FunDecl ''void'' funname arglist
                                                (Block (p_prepare pre @ [body] @ p_finalise pre) False)
                                                [''static'', ''inline''])\<rparr>))))))"

text \<open>
  The whole function. The second component of the result is the dictionary \<open>parameters\<close>
  as the call leaves it, whether the call returns or raises.
\<close>

definition compile_integral ::
  "('i, 'u, 't, 'op, 'c) env \<Rightarrow> 'i run \<Rightarrow> 'u integral_data \<Rightarrow> 'u form_data \<Rightarrow> string
     \<Rightarrow> params \<Rightarrow> (error + kernel option) \<times> params" where
  "compile_integral env run idata fd prefix parameters0 =
     (let parameters = remove_auto parameters0
      in (case prepare_kernel env idata fd of
            Inl e \<Rightarrow> Inl e
          | Inr pre \<Rightarrow>
             (case integrals_loop env (integral_type idata) (ufl_cell (domain idata)) pre
                     parameters 0 (integrals idata) ([], [], Map.empty) of
                Inl e \<Rightarrow> Inl e
              | Inr (nonfem_list, quadrature_indices, index_cache) \<Rightarrow>
                  finish_kernel env run idata prefix parameters pre nonfem_list quadrature_indices),
          parameters))"

subsection \<open>compile_form\<close>

text \<open>
  The loop of lines 50 to 56. The dictionary handed to \<open>compile_integral\<close> is the same
  object in every round, so each call sees what the one before left.
\<close>

fun compile_integrals ::
  "('i, 'u, 't, 'op, 'c) env \<Rightarrow> 'i run \<Rightarrow> 'u form_data \<Rightarrow> string
     \<Rightarrow> 'u integral_data list \<Rightarrow> params \<Rightarrow> kernel list \<Rightarrow> error + kernel list" where
  "compile_integrals env run fd prefix [] parameters kernels = Inr kernels"
| "compile_integrals env run fd prefix (idata # rest) parameters kernels =
     (case compile_integral env run idata fd prefix parameters of
        (Inl e, parameters') \<Rightarrow> Inl e
      | (Inr None, parameters') \<Rightarrow> compile_integrals env run fd prefix rest parameters' kernels
      | (Inr (Some k), parameters') \<Rightarrow>
          compile_integrals env run fd prefix rest parameters' (kernels @ [k]))"

text \<open>
  \<open>parameters\<close> is \<open>None\<close> or a dictionary; in both cases the driver works on a fresh
  dictionary made from the defaults, and the one of the caller is only read.
\<close>

definition compile_form ::
  "('i, 'u, 't, 'op, 'c) env \<Rightarrow> 'i run \<Rightarrow> 'u \<Rightarrow> string \<Rightarrow> params option
     \<Rightarrow> error + kernel list" where
  "compile_form env run form prefix parameters =
     (let parameters' = (case parameters of
                           None \<Rightarrow> default_parameters env
                         | Some p \<Rightarrow> default_parameters env ++ p);
          fd = compute_form_data env form
      in compile_integrals env run fd prefix (integral_data fd) parameters' [])"

text \<open>
  The value of \<open>ops\<close> on line 235 in the call of \<open>build_kernel_body\<close> that
  \<open>compile_integral\<close> makes: what the scheduler returned.
\<close>

definition scheduled_operations ::
  "('i, 'u, 't, 'op, 'c) env \<Rightarrow> 'i run \<Rightarrow> 'u integral_data \<Rightarrow> 'u form_data
     \<Rightarrow> params \<Rightarrow> error + 'op list" where
  "scheduled_operations env run idata fd parameters0 =
     (let parameters = remove_auto parameters0
      in case prepare_kernel env idata fd of
           Inl e \<Rightarrow> Inl e
         | Inr pre \<Rightarrow>
            (case integrals_loop env (integral_type idata) (ufl_cell (domain idata)) pre
                    parameters 0 (integrals idata) ([], [], Map.empty) of
               Inl e \<Rightarrow> Inl e
             | Inr (nonfem_list, quadrature_indices, index_cache) \<Rightarrow>
                (case parameters ''coffee_licm'' of
                   None \<Rightarrow> Inl (KeyError ''coffee_licm'')
                 | Some coffee_licm \<Rightarrow>
                    (let ir = remove_componenttensors env (sum_restrictions nonfem_list)
                     in emit_operations env (zip (p_expressions pre) ir)
                          (get_indices run (index_ordering env run ir
                                          (quadrature_indices @ p_argument_indices pre)))))))"

text \<open>The positions at which the mask \<open>enabled_coefficients\<close> is true, in increasing order.\<close>

definition enabled_positions :: "bool list \<Rightarrow> nat list" where
  "enabled_positions ons = filter (\<lambda>i. ons ! i) [0..<length ons]"

text \<open>
  The sums of the fragments position by position, written directly: as many as the
  shortest list has, entry \<open>j\<close> being the sum, from \<open>Zero\<close> and from left to right, of
  the entries \<open>j\<close> of all lists.
\<close>

definition positionwise_sums :: "'i gem list list \<Rightarrow> 'i gem list" where
  "positionwise_sums nf =
     map (\<lambda>j. foldl Sum Zero (map (\<lambda>l. l ! j) nf))
       [0..<(if nf = [] then 0 else Min (length ` set nf))]"

text \<open>
  The precedence between the dictionary of the caller, the metadata of an integral and a
  fallback, written directly: an entry of the caller other than \<open>auto\<close> wins; without
  one, the entry of the metadata is taken as it is; without that, the fallback.
\<close>

definition explicit_wins :: "params \<Rightarrow> params \<Rightarrow> string \<Rightarrow> pyval \<Rightarrow> pyval" where
  "explicit_wins parameters meta k fallback =
     (case parameters k of
        Some v \<Rightarrow>
          if v \<noteq> PStr ''auto'' then v
          else (case meta k of Some m \<Rightarrow> m | None \<Rightarrow> fallback)
      | None \<Rightarrow> (case meta k of Some m \<Rightarrow> m | None \<Rightarrow> fallback))"

text \<open>A position of a list holds a first occurrence when its entry is not among the earlier ones.\<close>

definition is_first :: "'a list \<Rightarrow> nat \<Rightarrow> bool" where
  "is_first xs p = (xs ! p \<notin> set (take p xs))"

subsection \<open>A sample instantiation\<close>

text \<open>
  Concrete collaborators, on which the functions above can be evaluated. Indices and UFL
  objects are strings. The lowering of an integrand is the product of a weight table and
  one basis table per argument, all indexed by the quadrature index; the integrand
  \<open>zero\<close> lowers to \<open>Zero\<close>, the integrand \<open>both_sides\<close> to two fragments, the
  integrand \<open>coefficient\<close> to a product with a sum over two further indices. The scheduler
  drops the expressions that are zero and gives every other one the loop nest of the
  indices of its summand; the generator writes one loop per index.
\<close>

type_synonym sample_op = "string gem \<times> string gem \<times> string mindex list"

fun is_zero :: "'i gem \<Rightarrow> bool" where
  "is_zero Zero = True"
| "is_zero (Sum a b) = (is_zero a \<and> is_zero b)"
| "is_zero (Product a b) = (is_zero a \<or> is_zero b)"
| "is_zero (IndexSum e i) = is_zero e"
| "is_zero _ = False"

fun summand :: "'i gem \<Rightarrow> 'i gem" where
  "summand (Sum Zero e) = summand e"
| "summand (IndexSum e i) = summand e"
| "summand e = e"

fun preorder :: "'i gem \<Rightarrow> 'i gem list" where
  "preorder (Sum a b) = Sum a b # preorder a @ preorder b"
| "preorder (Product a b) = Product a b # preorder a @ preorder b"
| "preorder (Division a b) = Division a b # preorder a @ preorder b"
| "preorder (IndexSum e i) = IndexSum e i # preorder e"
| "preorder (Indexed e mi) = Indexed e mi # preorder e"
| "preorder (ComponentTensor e is) = ComponentTensor e is # preorder e"
| "preorder e = [e]"

definition sample_lower :: "string \<Rightarrow> string \<Rightarrow> string list \<Rightarrow> string gem list" where
  "sample_lower f q args =
     (let t = foldl Product (Indexed (Variable ''w'') [MIndex q])
                (map (\<lambda>a. Indexed (Variable ''phi'') [MIndex q, MIndex a]) args);
          c = IndexSum (IndexSum (Product (Indexed (Variable ''f'') [MIndex ''s'', MIndex ''r''])
                                          (Indexed (Variable ''g'') [MIndex ''r'', MIndex ''s'']))
                          ''r'') ''s''
      in if f = ''zero'' then [Zero]
         else if f = ''both_sides'' then [t, t]
         else if f = ''coefficient'' then [Product t c]
         else [t])"

fun sample_emit ::
  "(string gem \<times> string gem) list \<Rightarrow> (string gem \<Rightarrow> error + string mindex list)
     \<Rightarrow> error + sample_op list" where
  "sample_emit [] gi = Inr []"
| "sample_emit ((v, e) # rest) gi =
     (if is_zero e then sample_emit rest gi
      else case gi (summand e) of
             Inl er \<Rightarrow> Inl er
           | Inr idxs \<Rightarrow>
               (case sample_emit rest gi of
                  Inl er \<Rightarrow> Inl er
                | Inr ops \<Rightarrow> Inr ((v, e, idxs) # ops)))"

fun sample_loop_name :: "(string \<times> string) list \<Rightarrow> string mindex \<Rightarrow> string" where
  "sample_loop_name names (MIndex i) = (case map_of names i of Some n \<Rightarrow> n | None \<Rightarrow> i)"
| "sample_loop_name names (MInt n) = ''fixed''"

definition sample_generate :: "sample_op list \<Rightarrow> (string \<times> string) list \<Rightarrow> coffee" where
  "sample_generate ops names =
     Block (map (\<lambda>(v, e, idxs). foldr (\<lambda>i body. For (sample_loop_name names i) body) idxs
                                   (Stmt ''accumulate'')) ops) True"

definition sample_env :: "(string, string, rat list list, sample_op, sample_op list) env" where
  "sample_env =
     \<lparr>default_parameters =
        [''quadrature_degree'' \<mapsto> PStr ''auto'', ''quadrature_rule'' \<mapsto> PStr ''auto'',
         ''unroll_indexsum'' \<mapsto> PInt 3, ''coffee_licm'' \<mapsto> PBool False],
      compute_form_data = (\<lambda>form.
         \<lparr>arguments = [''v'', ''u''], reduced_coefficients = [''f'', ''g'', ''h''],
          original_coefficient_positions = [0, 2, 5],
          integral_data =
            [\<lparr>integral_type = ''cell'', idata_subdomain_id = PStr ''otherwise'',
              domain = \<lparr>ufl_cell = \<lparr>cellname = ''triangle''\<rparr>, coordinate_degree = 1\<rparr>,
              integrals = [\<lparr>integrand = form,
                            metadata = [''estimated_polynomial_degree'' \<mapsto> PInt 2],
                            subdomain_id = PStr ''otherwise''\<rparr>],
              enabled_coefficients = [False, False, False]\<rparr>]\<rparr>),
      prepare_arguments = (\<lambda>it args.
         (Decl ''double'' (Symbol ''A'' []) [], [],
          [Indexed (Variable ''A'') (map (\<lambda>a. MIndex (''i_'' @ a)) args)], [])),
      coordinate_coefficient = (\<lambda>m. ''x''),
      prepare_coefficient = (\<lambda>it c name mode.
         (Decl ''double'' (Symbol name []) [''const''],
          (case mode of None \<Rightarrow> [] | Some m \<Rightarrow> [Stmt m]), Variable name)),
      create_quadrature = (\<lambda>cell it degree. \<lparr>points = [[1 / 3, 1 / 3]], weights = [1 / 2]\<rparr>),
      TabulationManager = (\<lambda>it cell pts. pts),
      replace_coordinates = (\<lambda>e x. e),
      gem_Index = (\<lambda>name. name),
      process = (\<lambda>it f tm ws q args cmap cache. (sample_lower f q args, cache)),
      unroll_indexsum = (\<lambda>ir u. ir),
      remove_componenttensors = (\<lambda>ir. ir),
      traversal = (\<lambda>ir. concat (map preorder ir)),
      emit_operations = sample_emit,
      inline_temporaries = (\<lambda>ir ops licm. ops),
      impero_process = (\<lambda>ops gi. Inr ops),
      generate_coffee = sample_generate\<rparr>"

text \<open>
  Two runs. In the first the addresses follow the last character of the name of an
  index and a node lists its free indices as \<open>free_indices\<close> gives them; in the second
  the addresses are in the opposite order and every listing is reversed.
\<close>

fun sample_address :: "string mindex \<Rightarrow> nat" where
  "sample_address (MIndex i) = (case rev i of [] \<Rightarrow> 0 | c # cs \<Rightarrow> of_char c)"
| "sample_address (MInt n) = nat \<bar>n\<bar>"

definition sample_run :: "string run" where
  "sample_run = \<lparr>address = sample_address, listing = (\<lambda>xs. xs)\<rparr>"

definition sample_run2 :: "string run" where
  "sample_run2 = \<lparr>address = (\<lambda>m. 300 - sample_address m), listing = rev\<rparr>"

definition sample_integral :: "string \<Rightarrow> string integral" where
  "sample_integral f =
     \<lparr>integrand = f, metadata = [''estimated_polynomial_degree'' \<mapsto> PInt 2],
      subdomain_id = PStr ''otherwise''\<rparr>"

definition sample_idata :: "string \<Rightarrow> string list \<Rightarrow> bool list \<Rightarrow> string integral_data" where
  "sample_idata it fs enabled =
     \<lparr>integral_type = it, idata_subdomain_id = PStr ''otherwise'',
      domain = \<lparr>ufl_cell = \<lparr>cellname = ''triangle''\<rparr>, coordinate_degree = 1\<rparr>,
      integrals = map sample_integral fs, enabled_coefficients = enabled\<rparr>"

definition sample_fd :: "string form_data" where
  "sample_fd = compute_form_data sample_env ''mass''"

definition sample_parameters :: params where
  "sample_parameters = default_parameters sample_env"

section \<open>Properties\<close>

subsection \<open>Removing duplicates keeps the order of first occurrence\<close>

lemma remdups_snoc: "remdups (ys @ [x]) = remdups (removeAll x ys) @ [x]"
  by (induction ys) auto

lemma first_occurrences_rev: "first_occurrences xs = rev (remdups (rev xs))"
proof (induction xs rule: first_occurrences.induct)
  case 1
  show ?case by simp
next
  case (2 x xs)
  have "rev (remdups (rev (x # xs))) = rev (remdups (removeAll x (rev xs)) @ [x])"
    by (simp add: remdups_snoc)
  also have "removeAll x (rev xs) = rev (removeAll x xs)"
    by (simp add: removeAll_filter_not_eq rev_filter)
  finally show ?case using 2 by simp
qed

lemma first_occurrences_snoc:
  "first_occurrences (xs @ [x]) = (if x \<in> set xs then first_occurrences xs else first_occurrences xs @ [x])"
  by (simp add: first_occurrences_rev)

lemma first_positions_map: "map (\<lambda>j. xs ! j) (filter (is_first xs) [0..<length xs]) = first_occurrences xs"
proof (induction xs rule: rev_induct)
  case Nil
  show ?case by simp
next
  case (snoc x xs)
  have f: "filter (is_first (xs @ [x])) [0..<length xs] = filter (is_first xs) [0..<length xs]"
    by (rule filter_cong) (auto simp: is_first_def nth_append)
  have m: "map (\<lambda>j. (xs @ [x]) ! j) (filter (is_first xs) [0..<length xs])
         = map (\<lambda>j. xs ! j) (filter (is_first xs) [0..<length xs])"
    by (rule map_cong) (auto simp: nth_append)
  have l: "is_first (xs @ [x]) (length xs) = (x \<notin> set xs)"
    by (simp add: is_first_def)
  show ?case using snoc f m l by (simp add: first_occurrences_snoc)
qed

lemma first_index_less: "x \<in> set xs \<Longrightarrow> first_index xs x < length xs"
proof (rule ccontr)
  assume a: "x \<in> set xs" and n: "\<not> first_index xs x < length xs"
  from n have "length (takeWhile (\<lambda>y. y \<noteq> x) xs) = length xs"
    using length_takeWhile_le [of "\<lambda>y. y \<noteq> x" xs] by (simp add: first_index_def)
  then have "takeWhile (\<lambda>y. y \<noteq> x) xs = xs"
    using takeWhile_eq_take [of "\<lambda>y. y \<noteq> x" xs] by simp
  then have "\<forall>y \<in> set xs. y \<noteq> x" by (simp only: takeWhile_eq_all_conv)
  with a show False by blast
qed

lemma first_index_nth: "x \<in> set xs \<Longrightarrow> xs ! first_index xs x = x"
  using nth_length_takeWhile [of "\<lambda>y. y \<noteq> x" xs] first_index_less [of x xs]
  unfolding first_index_def by simp

lemma first_index_is_first: "x \<in> set xs \<Longrightarrow> is_first xs (first_index xs x)"
proof -
  assume a: "x \<in> set xs"
  have "take (first_index xs x) xs = takeWhile (\<lambda>y. y \<noteq> x) xs"
    unfolding first_index_def by (rule takeWhile_eq_take [symmetric])
  moreover have "x \<notin> set (takeWhile (\<lambda>y. y \<noteq> x) xs)"
    by (auto dest: set_takeWhileD)
  ultimately show ?thesis using first_index_nth [OF a] by (simp add: is_first_def)
qed

lemma is_first_first_index:
  assumes "p < length xs" "is_first xs p"
  shows "first_index xs (xs ! p) = p"
proof -
  have "takeWhile (\<lambda>y. y \<noteq> xs ! p) xs = take p xs"
  proof (rule takeWhile_eq_take_P_nth)
    fix i assume "i < p" "i < length xs"
    then have "xs ! i \<in> set (take p xs)"
      by (metis in_set_conv_nth length_take min_less_iff_conj nth_take)
    with assms show "xs ! i \<noteq> xs ! p" by (auto simp: is_first_def)
  next
    show "\<not> xs ! p \<noteq> xs ! p" by simp
  qed
  with assms show ?thesis by (simp add: first_index_def)
qed

lemma first_positions_set:
  "first_index xs ` set xs = set (filter (is_first xs) [0..<length xs])"
proof (rule set_eqI, rule iffI)
  fix p assume "p \<in> first_index xs ` set xs"
  then show "p \<in> set (filter (is_first xs) [0..<length xs])"
    by (auto simp: first_index_less first_index_is_first)
next
  fix p assume "p \<in> set (filter (is_first xs) [0..<length xs])"
  then have "p < length xs" "is_first xs p" by auto
  then have "first_index xs (xs ! p) = p" "xs ! p \<in> set xs"
    by (auto simp: is_first_first_index)
  then show "p \<in> first_index xs ` set xs" by force
qed

lemma first_index_inj: "inj_on (first_index xs) (set xs)"
  by (rule inj_onI) (metis first_index_nth)

lemma sort_first_positions:
  "sort (map (first_index xs) (sort_key key (remdups xs))) = filter (is_first xs) [0..<length xs]"
proof (rule properties_for_sort)
  have d1: "distinct (map (first_index xs) (remdups xs))"
    by (simp add: distinct_map first_index_inj)
  have d2: "distinct (filter (is_first xs) [0..<length xs])" by simp
  have s: "set (map (first_index xs) (remdups xs)) = set (filter (is_first xs) [0..<length xs])"
    using first_positions_set [of xs] by simp
  have "mset (filter (is_first xs) [0..<length xs]) = mset (map (first_index xs) (remdups xs))"
    using d1 d2 s by (metis set_eq_iff_mset_eq_distinct)
  then show "mset (filter (is_first xs) [0..<length xs]) = mset (map (first_index xs) (sort_key key (remdups xs)))"
    by simp
  show "sorted (filter (is_first xs) [0..<length xs])"
    by (simp add: sorted_wrt_filter)
qed

lemma dedup_indices_first_occurrences: "dedup_indices key xs = first_occurrences xs"
  by (simp add: dedup_indices_def numpy_unique_def Let_def sort_first_positions first_positions_map)

lemma idx2pos_SomeD: "idx2pos xs a = Some n \<Longrightarrow> n < length xs \<and> xs ! n = a"
proof -
  assume "idx2pos xs a = Some n"
  then have "(a, n) \<in> set (zip xs [0..<length xs])"
    by (auto simp: idx2pos_def dest: map_of_SomeD)
  then show ?thesis
    by (auto simp: in_set_zip)
qed

lemma idx2pos_inj: "inj_on (\<lambda>i. the (idx2pos xs i)) {i. idx2pos xs i \<noteq> None}"
proof (rule inj_onI)
  fix a b
  assume "a \<in> {i. idx2pos xs i \<noteq> None}" "b \<in> {i. idx2pos xs i \<noteq> None}"
    and e: "the (idx2pos xs a) = the (idx2pos xs b)"
  then obtain n m where n: "idx2pos xs a = Some n" and m: "idx2pos xs b = Some m" by auto
  with e have "n = m" by simp
  with idx2pos_SomeD [OF n] idx2pos_SomeD [OF m] show "a = b" by simp
qed

lemma filter_eq_replicate: "filter (\<lambda>x. k = x) zs = replicate (count (mset zs) k) k"
  by (induction zs) auto

lemma sort_key_permutation:
  assumes i: "inj_on f (set xs)" and m: "mset xs = mset ys"
  shows "sort_key f xs = sort_key f ys"
proof (rule properties_for_sort_key)
  show "mset (sort_key f ys) = mset xs" using m by simp
  show "sorted (map f (sort_key f ys))" by simp
  fix k assume "k \<in> set (sort_key f ys)"
  then have k: "k \<in> set xs" using m by (simp add: mset_eq_setD [OF m])
  have e: "\<And>zs. set zs = set xs \<Longrightarrow> filter (\<lambda>x. f k = f x) zs = filter (\<lambda>x. k = x) zs"
    using i k by (intro filter_cong refl) (auto dest: inj_onD)
  have "filter (\<lambda>x. f k = f x) (sort_key f ys) = filter (\<lambda>x. k = x) (sort_key f ys)"
    by (rule e) (simp add: mset_eq_setD [OF m])
  also have "\<dots> = filter (\<lambda>x. k = x) xs"
    by (simp only: filter_eq_replicate) (simp add: m)
  also have "\<dots> = filter (\<lambda>x. f k = f x) xs"
    by (rule e [symmetric]) simp
  finally show "filter (\<lambda>x. f k = f x) (sort_key f ys) = filter (\<lambda>x. f k = f x) xs" .
qed

text \<open>
  The loop nest of an expression does not depend on the order in which the expression
  lists its free indices.
\<close>

lemma make_index_orderer_permutation:
  assumes m: "mset xs = mset ys"
  shows "make_index_orderer ord xs = make_index_orderer ord ys"
proof -
  have s: "set xs = set ys" by (rule mset_eq_setD [OF m])
  show ?thesis
  proof (cases "\<exists>i \<in> set xs. idx2pos ord i = None")
    case True
    with s show ?thesis by (simp add: make_index_orderer_def)
  next
    case False
    then have "set xs \<subseteq> {i. idx2pos ord i \<noteq> None}" by auto
    then have "inj_on (\<lambda>i. the (idx2pos ord i)) (set xs)"
      by (rule inj_on_subset [OF idx2pos_inj])
    from sort_key_permutation [OF this m] False s show ?thesis
      by (simp add: make_index_orderer_def)
  qed
qed

lemma collect_indices_first_occurrences:
  "collect_indices env run ir = first_occurrences (concat (map indexed_multiindex (traversal env ir)))"
  by (simp add: collect_indices_def dedup_indices_first_occurrences)

text \<open>
  When the listing of a run is a permutation, the callback \<open>get_indices\<close> is the same as
  with the free indices in their given order.
\<close>

lemma get_indices_listing:
  assumes "\<forall>xs. mset (listing run xs) = mset xs"
  shows "get_indices run ord = (\<lambda>e. make_index_orderer ord (map MIndex (free_indices e)))"
proof (rule ext)
  fix e
  show "get_indices run ord e = make_index_orderer ord (map MIndex (free_indices e))"
    unfolding get_indices_def
    by (rule make_index_orderer_permutation) (simp add: assms)
qed

lemma build_kernel_body_run:
  assumes "\<forall>xs. mset (listing run1 xs) = mset xs" and "\<forall>xs. mset (listing run2 xs) = mset xs"
  shows "build_kernel_body env run1 rv ir po licm names = build_kernel_body env run2 rv ir po licm names"
  unfolding build_kernel_body_def index_ordering_def collect_indices_first_occurrences
    get_indices_listing [OF assms(1)] get_indices_listing [OF assms(2)]
  by (rule refl)

lemma finish_kernel_run:
  assumes "\<forall>xs. mset (listing run1 xs) = mset xs" and "\<forall>xs. mset (listing run2 xs) = mset xs"
  shows "finish_kernel env run1 idata prefix parameters pre nf qis
           = finish_kernel env run2 idata prefix parameters pre nf qis"
  unfolding finish_kernel_def
  by (subst build_kernel_body_run [OF assms, of env]) (rule refl)

lemma compile_integral_run:
  assumes "\<forall>xs. mset (listing run1 xs) = mset xs" and "\<forall>xs. mset (listing run2 xs) = mset xs"
  shows "compile_integral env run1 idata fd prefix parameters
           = compile_integral env run2 idata fd prefix parameters"
  unfolding compile_integral_def
  by (subst finish_kernel_run [OF assms, of env]) (rule refl)

lemma compile_integrals_run:
  assumes "\<forall>xs. mset (listing run1 xs) = mset xs" and "\<forall>xs. mset (listing run2 xs) = mset xs"
  shows "compile_integrals env run1 fd prefix ids parameters kernels
           = compile_integrals env run2 fd prefix ids parameters kernels"
proof (induction ids arbitrary: parameters kernels)
  case Nil
  show ?case by simp
next
  case (Cons idata ids)
  show ?case
    unfolding compile_integrals.simps
    by (subst compile_integral_run [OF assms, of env])
       (auto split: prod.splits sum.splits option.splits intro: Cons.IH)
qed

text \<open>
  C4. Two compilations of the same input give the same result, syntactically the same
  kernel. The two runs may differ in the order in which \<open>numpy.unique\<close> sorts the index
  objects and in the order in which each node lists its free indices; whatever these
  are, \<open>compile_integral\<close> and \<open>compile_form\<close> return the same, because the collected
  indices are the first occurrences in the order of the traversal, and the loop nest of
  an expression is its free indices in the order of the index ordering.
\<close>

theorem compile_integral_deterministic:
  assumes "\<forall>xs. mset (listing run1 xs) = mset xs" and "\<forall>xs. mset (listing run2 xs) = mset xs"
  shows "compile_integral env run1 idata fd prefix parameters
           = compile_integral env run2 idata fd prefix parameters
       \<and> compile_form env run1 form prefix popt = compile_form env run2 form prefix popt
       \<and> collect_indices env run1 ir = collect_indices env run2 ir
       \<and> collect_indices env run1 ir
           = first_occurrences (concat (map indexed_multiindex (traversal env ir)))
       \<and> get_indices run1 ord e = get_indices run2 ord e"
proof (intro conjI)
  show "compile_integral env run1 idata fd prefix parameters
          = compile_integral env run2 idata fd prefix parameters"
    by (rule compile_integral_run [OF assms])
  show "compile_form env run1 form prefix popt = compile_form env run2 form prefix popt"
    unfolding compile_form_def Let_def by (rule compile_integrals_run [OF assms])
  show "collect_indices env run1 ir = collect_indices env run2 ir"
    by (simp only: collect_indices_first_occurrences)
  show "collect_indices env run1 ir
          = first_occurrences (concat (map indexed_multiindex (traversal env ir)))"
    by (rule collect_indices_first_occurrences)
  show "get_indices run1 ord e = get_indices run2 ord e"
    by (simp only: get_indices_listing [OF assms(1)] get_indices_listing [OF assms(2)])
qed

theorem compile_integral_deterministic_witness:
  "snd (numpy_unique (address sample_run)
          (concat (map indexed_multiindex
             (traversal sample_env (sample_lower ''coefficient'' ''ip0'' [''i_v'', ''i_u''])))))
     \<noteq> snd (numpy_unique (address sample_run2)
          (concat (map indexed_multiindex
             (traversal sample_env (sample_lower ''coefficient'' ''ip0'' [''i_v'', ''i_u''])))))
   \<and> listing sample_run (free_indices (hd (sample_lower ''coefficient'' ''ip0'' [''i_v'', ''i_u''])))
     \<noteq> listing sample_run2 (free_indices (hd (sample_lower ''coefficient'' ''ip0'' [''i_v'', ''i_u''])))
   \<and> compile_integral sample_env sample_run (sample_idata ''cell'' [''coefficient''] []) sample_fd
        ''form'' sample_parameters
     = compile_integral sample_env sample_run2 (sample_idata ''cell'' [''coefficient''] []) sample_fd
        ''form'' sample_parameters
   \<and> compile_form sample_env sample_run ''coefficient'' ''form'' None
     = compile_form sample_env sample_run2 ''coefficient'' ''form'' None
   \<and> collect_indices sample_env sample_run2 (sample_lower ''coefficient'' ''ip0'' [''i_v'', ''i_u''])
     = [MIndex ''ip0'', MIndex ''i_v'', MIndex ''i_u'', MIndex ''s'', MIndex ''r'']
   \<and> get_indices sample_run2 [MIndex ''ip0'', MIndex ''i_v'', MIndex ''i_u'', MIndex ''s'', MIndex ''r'']
        (hd (sample_lower ''coefficient'' ''ip0'' [''i_v'', ''i_u'']))
     = Inr [MIndex ''ip0'', MIndex ''i_v'', MIndex ''i_u'']"
proof -
  let ?ir = "sample_lower ''coefficient'' ''ip0'' [''i_v'', ''i_u'']"
  let ?ord = "[MIndex ''ip0'', MIndex ''i_v'', MIndex ''i_u'', MIndex ''s'', MIndex ''r'']"
  have w1: "\<forall>xs :: string list. mset (listing sample_run xs) = mset xs"
    by (simp add: sample_run_def)
  have w2: "\<forall>xs :: string list. mset (listing sample_run2 xs) = mset xs"
    by (simp add: sample_run2_def)
  note t = compile_integral_deterministic [OF w1 w2, of sample_env
             "sample_idata ''cell'' [''coefficient''] []" sample_fd "''form''" sample_parameters
             "''coefficient''" None ?ir ?ord "hd ?ir"]
  have a: "snd (numpy_unique (address sample_run)
                  (concat (map indexed_multiindex (traversal sample_env ?ir))))
           \<noteq> snd (numpy_unique (address sample_run2)
                  (concat (map indexed_multiindex (traversal sample_env ?ir))))"
    by code_simp
  have b: "listing sample_run (free_indices (hd ?ir)) \<noteq> listing sample_run2 (free_indices (hd ?ir))"
    by code_simp
  have c: "collect_indices sample_env sample_run ?ir = ?ord"
    by code_simp
  have d: "get_indices sample_run ?ord (hd ?ir) = Inr [MIndex ''ip0'', MIndex ''i_v'', MIndex ''i_u'']"
    by code_simp
  from t c have c2: "collect_indices sample_env sample_run2 ?ir = ?ord" by simp
  from t d have d2: "get_indices sample_run2 ?ord (hd ?ir) = Inr [MIndex ''ip0'', MIndex ''i_v'', MIndex ''i_u'']"
    by simp
  from t a b c2 d2 show ?thesis by blast
qed

subsection \<open>The dictionary of parameters\<close>

lemma compile_integral_parameters:
  "snd (compile_integral env run idata fd prefix parameters) = remove_auto parameters"
  by (simp add: compile_integral_def Let_def)

lemma remove_auto_apply:
  "remove_auto parameters k =
     (if (k = ''quadrature_degree'' \<or> k = ''quadrature_rule'') \<and> parameters k = Some (PStr ''auto'')
      then None else parameters k)"
  by (simp add: remove_auto_def Let_def)


lemma compile_integral_remove_auto:
  "remove_auto p = remove_auto q \<Longrightarrow>
   compile_integral env run idata fd prefix p = compile_integral env run idata fd prefix q"
  by (simp add: compile_integral_def Let_def)





subsection \<open>The index ordering\<close>

lemma lower_integral_quadrature_index:
  assumes "lower_integral env it cell pre parameters i integral (nf, qis, c) = Inr (nf1, qis1, c1)"
  shows "qis1 = qis @ [gem_Index env (''ip'' @ string_of_nat i)]" and "length nf1 = Suc (length nf)"
  using assms
  by (auto simp: Let_def split: sum.splits pyval.splits option.splits prod.splits)

lemma integrals_loop_quadrature_indices:
  "integrals_loop env it cell pre parameters i xs (nf, qis, c) = Inr (nf1, qis1, c1) \<Longrightarrow>
   qis1 = qis @ map (\<lambda>j. gem_Index env (''ip'' @ string_of_nat j)) [i..<i + length xs]
   \<and> length nf1 = length nf + length xs"
proof (induction xs arbitrary: i nf qis c)
  case Nil
  then show ?case by simp
next
  case (Cons x xs)
  from Cons.prems obtain st where
    s: "lower_integral env it cell pre parameters i x (nf, qis, c) = Inr st"
    and r: "integrals_loop env it cell pre parameters (Suc i) xs st = Inr (nf1, qis1, c1)"
    by (auto split: sum.splits)
  obtain nf2 qis2 c2 where st: "st = (nf2, qis2, c2)" by (cases st) auto
  have q2: "qis2 = qis @ [gem_Index env (''ip'' @ string_of_nat i)]"
    and n2: "length nf2 = Suc (length nf)"
    using lower_integral_quadrature_index [OF s [unfolded st]] by blast+
  have u: "[i..<i + length (x # xs)] = i # [Suc i..<Suc i + length xs]"
    by (subst upt_conv_Cons) simp_all
  from Cons.IH [OF r [unfolded st]] q2 n2 show ?case
    unfolding u by simp
qed

lemma index_ordering_eq:
  "index_ordering env run ir prefix_ordering =
     map MIndex prefix_ordering @
     filter (\<lambda>k. k \<notin> set (map MIndex prefix_ordering))
       (first_occurrences (concat (map indexed_multiindex (traversal env ir))))"
  by (simp add: index_ordering_def make_prefix_ordering_def collect_indices_first_occurrences)

lemma filter_eq_distinct: "distinct zs \<Longrightarrow> k \<in> set zs \<Longrightarrow> filter (\<lambda>x. k = x) zs = [k]"
  by (induction zs) (auto simp: filter_empty_conv)

lemma idx2pos_nth:
  assumes "distinct xs" "n < length xs"
  shows "idx2pos xs (xs ! n) = Some n"
proof -
  let ?m = "length xs"
  have "rev (zip xs [0..<?m]) = zip (rev xs) (rev [0..<?m])"
    by (simp add: zip_rev)
  moreover have "rev xs ! (?m - 1 - n) = xs ! n" "rev [0..<?m] ! (?m - 1 - n) = n"
    using assms by (simp_all add: rev_nth)
  moreover have "map_of (zip (rev xs) (rev [0..<?m])) (rev xs ! (?m - 1 - n))
                   = Some (rev [0..<?m] ! (?m - 1 - n))"
    using assms by (intro map_of_zip_nth) auto
  ultimately show ?thesis by (simp add: idx2pos_def)
qed

lemma idx2pos_map: "distinct xs \<Longrightarrow> map (\<lambda>i. the (idx2pos xs i)) xs = [0..<length xs]"
  by (rule nth_equalityI) (simp_all add: idx2pos_nth)

lemma idx2pos_Some: "distinct xs \<Longrightarrow> x \<in> set xs \<Longrightarrow> \<exists>n < length xs. idx2pos xs x = Some n \<and> xs ! n = x"
  by (metis idx2pos_nth in_set_conv_nth)

text \<open>
  On an ordering without repetition, \<open>apply_ordering\<close> returns the given indices in the
  order in which they appear in the ordering.
\<close>

lemma make_index_orderer_filter:
  assumes d: "distinct ord" and dx: "distinct xs" and sub: "set xs \<subseteq> set ord"
  shows "make_index_orderer ord xs = Inr (filter (\<lambda>i. i \<in> set xs) ord)"
proof -
  let ?f = "\<lambda>i. the (idx2pos ord i)"
  let ?ys = "filter (\<lambda>i. i \<in> set xs) ord"
  have inj: "inj_on ?f (set ord)"
  proof (rule inj_onI)
    fix a b assume "a \<in> set ord" "b \<in> set ord" "?f a = ?f b"
    then show "a = b" using idx2pos_Some [OF d] by (metis option.sel)
  qed
  have nokey: "\<not> (\<exists>i \<in> set xs. idx2pos ord i = None)"
    using sub idx2pos_Some [OF d] by fastforce
  have dy: "distinct ?ys" using d by simp
  have sy: "set ?ys = set xs" using sub by auto
  have m: "mset ?ys = mset xs"
    using dy dx sy by (metis set_eq_iff_mset_eq_distinct)
  have sorted: "sorted (map ?f ?ys)"
    by (rule sorted_filter) (simp add: idx2pos_map [OF d])
  have "sort_key ?f xs = ?ys"
  proof (rule properties_for_sort_key [OF m _ sorted])
    fix k assume k: "k \<in> set ?ys"
    have eq: "\<And>zs. set zs \<subseteq> set ord \<Longrightarrow> filter (\<lambda>x. ?f k = ?f x) zs = filter (\<lambda>x. k = x) zs"
      using inj k by (intro filter_cong refl) (auto dest: inj_onD)
    have kx: "k \<in> set xs" using k by simp
    have "filter (\<lambda>x. k = x) ?ys = [k]"
      by (rule filter_eq_distinct [OF dy k])
    moreover have "filter (\<lambda>x. k = x) xs = [k]"
      by (rule filter_eq_distinct [OF dx kx])
    ultimately show "filter (\<lambda>x. ?f k = ?f x) ?ys = filter (\<lambda>x. ?f k = ?f x) xs"
      using eq [of ?ys] eq [of xs] sub by auto
  qed
  with nokey show ?thesis by (simp add: make_index_orderer_def)
qed

lemma distinct_free_indices: "distinct (free_indices e)"
  by (induction e) (simp_all add: distinct_removeAll)

lemma distinct_first_occurrences: "distinct (first_occurrences xs)"
  by (simp add: first_occurrences_rev)

lemma string_of_nat_0: "string_of_nat 0 = ''0''"
  by code_simp

lemma compile_integral_finish:
  assumes p: "prepare_kernel env idata fd = Inr pre"
      and l: "integrals_loop env (integral_type idata) (ufl_cell (domain idata)) pre
                (remove_auto parameters) 0 (integrals idata) ([], [], Map.empty) = Inr (nf, qis, c)"
  shows "fst (compile_integral env run idata fd prefix parameters)
           = finish_kernel env run idata prefix (remove_auto parameters) pre nf qis"
  by (simp add: compile_integral_def Let_def p l)

text \<open>
  C1, as amended. When the preamble and the loop over the integrals have succeeded,
  with the fragments \<open>nf\<close> and the quadrature indices \<open>qis\<close>, the quadrature indices are
  \<open>ip0\<close>, \<open>ip1\<close>, ... in the order of the integrals, and \<open>compile_integral\<close> returns
  what the scheduler, \<open>impero_utils\<close> and the generator make with one callback for the
  loop nests: the free indices of an expression, sorted by the ordering that lists the
  quadrature indices first, then the argument indices, then the other indices of the
  \<open>Indexed\<close> nodes of the traversal, each at its first occurrence. For two arguments
  and one integral, the three indices being different, an expression in which they are
  free gets the nest quadrature index, first argument index, second argument index.
\<close>

theorem compile_integral_index_ordering:
  assumes p: "prepare_kernel env idata fd = Inr pre"
      and l: "integrals_loop env (integral_type idata) (ufl_cell (domain idata)) pre
                (remove_auto parameters) 0 (integrals idata) ([], [], Map.empty) = Inr (nf, qis, c)"
      and w: "\<forall>xs. mset (listing run xs) = mset xs"
  shows "qis = map (\<lambda>i. gem_Index env (''ip'' @ string_of_nat i)) [0..<length (integrals idata)]
       \<and> (let ir = remove_componenttensors env (sum_restrictions nf);
               args = p_argument_indices pre;
               ord = map MIndex qis @ map MIndex args
                     @ filter (\<lambda>k. k \<notin> MIndex ` (set qis \<union> set args))
                         (first_occurrences (concat (map indexed_multiindex (traversal env ir))));
               nest = (\<lambda>e. make_index_orderer ord (map MIndex (free_indices e)))
           in fst (compile_integral env run idata fd prefix parameters)
                = (case remove_auto parameters ''coffee_licm'' of
                     None \<Rightarrow> Inl (KeyError ''coffee_licm'')
                   | Some licm \<Rightarrow>
                      (case emit_operations env (zip (p_expressions pre) ir) nest of
                         Inl e \<Rightarrow> Inl e
                       | Inr ops \<Rightarrow>
                          if ops = [] then Inr None
                          else
                           (case impero_process env (inline_temporaries env ir ops licm) nest of
                              Inl e \<Rightarrow> Inl e
                            | Inr impero_c \<Rightarrow>
                               if integrals idata = [] then Inl (UnboundLocalError ''integral'')
                               else
                                (let orient = (\<exists>node \<in> set (traversal env ir). is_cell_orientations node);
                                     body = set_open_scope False
                                              (generate_coffee env impero_c (make_index_names args qis))
                                 in Inr (Some ((p_kernel pre)
                                      \<lparr>oriented := orient,
                                       ast := Some (FunDecl ''void''
                                                (prefix @ ''_'' @ integral_type idata @ ''_integral_'' @
                                                 py_str (subdomain_id (last (integrals idata))))
                                                (if orient
                                                 then take 2 (p_arglist pre)
                                                      @ [Decl ''int *restrict *restrict''
                                                           (Symbol ''cell_orientations'' []) [''const'']]
                                                      @ drop 2 (p_arglist pre)
                                                 else p_arglist pre)
                                                (Block (p_prepare pre @ [body] @ p_finalise pre) False)
                                                [''static'', ''inline''])\<rparr>))))))
              \<and> (length (integrals idata) = 1 \<and> args = [j, k]
                   \<and> distinct [gem_Index env (''ip'' @ string_of_nat 0), j, k]
                   \<and> set (free_indices e) = {gem_Index env (''ip'' @ string_of_nat 0), j, k}
                 \<longrightarrow> get_indices run ord e
                       = Inr [MIndex (gem_Index env (''ip'' @ string_of_nat 0)), MIndex j, MIndex k]))"
proof -
  let ?ir = "remove_componenttensors env (sum_restrictions nf)"
  let ?args = "p_argument_indices pre"
  let ?collected = "first_occurrences (concat (map indexed_multiindex (traversal env ?ir)))"
  let ?ord = "map MIndex qis @ map MIndex ?args
              @ filter (\<lambda>k. k \<notin> MIndex ` (set qis \<union> set ?args)) ?collected"
  from integrals_loop_quadrature_indices [OF l]
  have q: "qis = map (\<lambda>i. gem_Index env (''ip'' @ string_of_nat i)) [0..<length (integrals idata)]"
    by simp
  have o: "index_ordering env run ?ir (qis @ ?args) = ?ord"
    by (simp add: index_ordering_eq image_Un)
  have first: "fst (compile_integral env run idata fd prefix parameters)
                = (case remove_auto parameters ''coffee_licm'' of
                     None \<Rightarrow> Inl (KeyError ''coffee_licm'')
                   | Some licm \<Rightarrow>
                      (case emit_operations env (zip (p_expressions pre) ?ir)
                              (\<lambda>e. make_index_orderer ?ord (map MIndex (free_indices e))) of
                         Inl e \<Rightarrow> Inl e
                       | Inr ops \<Rightarrow>
                          if ops = [] then Inr None
                          else
                           (case impero_process env (inline_temporaries env ?ir ops licm)
                                   (\<lambda>e. make_index_orderer ?ord (map MIndex (free_indices e))) of
                              Inl e \<Rightarrow> Inl e
                            | Inr impero_c \<Rightarrow>
                               if integrals idata = [] then Inl (UnboundLocalError ''integral'')
                               else
                                (let orient = (\<exists>node \<in> set (traversal env ?ir). is_cell_orientations node);
                                     body = set_open_scope False
                                              (generate_coffee env impero_c (make_index_names ?args qis))
                                 in Inr (Some ((p_kernel pre)
                                      \<lparr>oriented := orient,
                                       ast := Some (FunDecl ''void''
                                                (prefix @ ''_'' @ integral_type idata @ ''_integral_'' @
                                                 py_str (subdomain_id (last (integrals idata))))
                                                (if orient
                                                 then take 2 (p_arglist pre)
                                                      @ [Decl ''int *restrict *restrict''
                                                           (Symbol ''cell_orientations'' []) [''const'']]
                                                      @ drop 2 (p_arglist pre)
                                                 else p_arglist pre)
                                                (Block (p_prepare pre @ [body] @ p_finalise pre) False)
                                                [''static'', ''inline''])\<rparr>))))))"
    unfolding compile_integral_finish [OF p l] finish_kernel_def build_kernel_body_def Let_def o
      get_indices_listing [OF w]
    by (simp add: insert_at_def split: option.splits sum.splits list.splits)
  have second: "get_indices run ?ord e
                 = Inr [MIndex (gem_Index env (''ip'' @ string_of_nat 0)), MIndex j, MIndex k]"
    if h: "length (integrals idata) = 1 \<and> ?args = [j, k]
              \<and> distinct [gem_Index env (''ip'' @ string_of_nat 0), j, k]
              \<and> set (free_indices e) = {gem_Index env (''ip'' @ string_of_nat 0), j, k}"
  proof -
    let ?ip = "gem_Index env (''ip'' @ string_of_nat 0)"
    let ?pre = "[MIndex ?ip, MIndex j, MIndex k]"
    let ?rest = "filter (\<lambda>m. m \<notin> set ?pre) ?collected"
    let ?xs = "map MIndex (free_indices e)"
    from h q have qs: "qis = [?ip]" by simp
    have "filter (\<lambda>k. k \<notin> MIndex ` (set qis \<union> set ?args)) ?collected = ?rest"
      by (rule filter_cong) (use h qs in auto)
    then have o2: "?ord = ?pre @ ?rest"
      using h qs by simp
    have d: "distinct ?ord"
      unfolding o2 using h by (auto simp: distinct_first_occurrences)
    have dx: "distinct ?xs"
      by (simp add: distinct_map distinct_free_indices inj_on_def)
    have sx: "set ?xs = set ?pre" using h by auto
    have sub: "set ?xs \<subseteq> set ?ord" unfolding o2 sx by auto
    have "filter (\<lambda>i. i \<in> set ?xs) ?rest = []"
      unfolding sx by (auto simp: filter_empty_conv)
    moreover have "filter (\<lambda>i. i \<in> set ?xs) ?pre = ?pre"
      unfolding sx by (simp only: filter_id_conv) simp
    ultimately have "filter (\<lambda>i. i \<in> set ?xs) ?ord = ?pre"
      unfolding o2 by (simp only: filter_append append_Nil2)
    with make_index_orderer_filter [OF d dx sub] show ?thesis
      by (simp add: get_indices_listing [OF w])
  qed
  from q first second show ?thesis
    unfolding Let_def by blast
qed

theorem compile_integral_index_ordering_witness:
  "map MIndex [''ip0''] @ map MIndex [''i_v'', ''i_u'']
     @ filter (\<lambda>k. k \<notin> MIndex ` (set [''ip0''] \<union> set [''i_v'', ''i_u'']))
         (first_occurrences (concat (map indexed_multiindex
            (traversal sample_env (remove_componenttensors sample_env
               (sum_restrictions
                  [map (\<lambda>e. IndexSum e ''ip0'')
                     (sample_lower ''coefficient'' ''ip0'' [''i_v'', ''i_u''])]))))))
     = [MIndex ''ip0'', MIndex ''i_v'', MIndex ''i_u'', MIndex ''s'', MIndex ''r'']
   \<and> get_indices sample_run2
        [MIndex ''ip0'', MIndex ''i_v'', MIndex ''i_u'', MIndex ''s'', MIndex ''r'']
        (hd (sample_lower ''coefficient'' ''ip0'' [''i_v'', ''i_u'']))
     = Inr [MIndex ''ip0'', MIndex ''i_v'', MIndex ''i_u'']
   \<and> fst (compile_integral sample_env sample_run2 (sample_idata ''cell'' [''coefficient''] [])
            sample_fd ''form'' sample_parameters)
     = Inr (Some \<lparr>ast = Some (FunDecl ''void'' ''form_cell_integral_otherwise''
                     [Decl ''double'' (Symbol ''A'' []) [],
                      Decl ''double'' (Symbol ''coords'' []) [''const'']]
                     (Block [Stmt ''list_tensor'',
                             Block [For ''ip'' (For ''j'' (For ''k'' (Stmt ''accumulate'')))] False]
                        False)
                     [''static'', ''inline'']),
                  kernel_integral_type = ''cell'',
                  kernel_subdomain_id = PStr ''otherwise'',
                  coefficient_numbers = [], oriented = False\<rparr>)"
proof -
  let ?idata = "sample_idata ''cell'' [''coefficient''] []"
  let ?E = "hd (sample_lower ''coefficient'' ''ip0'' [''i_v'', ''i_u''])"
  let ?nf = "[map (\<lambda>e. IndexSum e ''ip0'') (sample_lower ''coefficient'' ''ip0'' [''i_v'', ''i_u''])]"
  let ?ord = "[MIndex ''ip0'', MIndex ''i_v'', MIndex ''i_u'', MIndex ''s'', MIndex ''r'']"
  have "case prepare_kernel sample_env ?idata sample_fd of
          Inl er \<Rightarrow> False
        | Inr pre \<Rightarrow>
            p_argument_indices pre = [''i_v'', ''i_u''] \<and>
            (case integrals_loop sample_env (integral_type ?idata) (ufl_cell (domain ?idata)) pre
                    (remove_auto sample_parameters) 0 (integrals ?idata) ([], [], Map.empty) of
               Inl er \<Rightarrow> False
             | Inr (nf, qis, c) \<Rightarrow> nf = ?nf \<and> qis = [''ip0''])"
    by code_simp
  then obtain pre qis c where
    p: "prepare_kernel sample_env ?idata sample_fd = Inr pre" and
    a: "p_argument_indices pre = [''i_v'', ''i_u'']" and
    l: "integrals_loop sample_env (integral_type ?idata) (ufl_cell (domain ?idata)) pre
          (remove_auto sample_parameters) 0 (integrals ?idata) ([], [], Map.empty) = Inr (?nf, qis, c)"
    and q: "qis = [''ip0'']"
    by (auto split: sum.splits prod.splits)
  have w: "\<forall>xs :: string list. mset (listing sample_run2 xs) = mset xs"
    by (simp add: sample_run2_def)
  have o: "map MIndex [''ip0''] @ map MIndex [''i_v'', ''i_u'']
     @ filter (\<lambda>k. k \<notin> MIndex ` (set [''ip0''] \<union> set [''i_v'', ''i_u'']))
         (first_occurrences (concat (map indexed_multiindex
            (traversal sample_env (remove_componenttensors sample_env (sum_restrictions ?nf))))))
     = ?ord"
    by code_simp
  have g: "gem_Index sample_env (''ip'' @ string_of_nat 0) = ''ip0''"
    by (simp add: sample_env_def string_of_nat_0)
  have f: "set (free_indices ?E) = {''ip0'', ''i_v'', ''i_u''}"
    by code_simp
  have h: "length (integrals ?idata) = 1 \<and> [''i_v'', ''i_u''] = [''i_v'', ''i_u'']
              \<and> distinct [''ip0'', ''i_v'', ''i_u'']
              \<and> set (free_indices ?E) = {''ip0'', ''i_v'', ''i_u''}"
    using f by (simp add: sample_idata_def)
  note t = compile_integral_index_ordering [OF p l w, where j = "''i_v''" and k = "''i_u''"
             and e = ?E and prefix = "''form''", unfolded Let_def, THEN conjunct2, THEN conjunct2,
             unfolded q a o g]
  from t h have n: "get_indices sample_run2 ?ord ?E = Inr [MIndex ''ip0'', MIndex ''i_v'', MIndex ''i_u'']"
    by (rule mp)
  have k: "fst (compile_integral sample_env sample_run2 ?idata sample_fd ''form'' sample_parameters)
     = Inr (Some \<lparr>ast = Some (FunDecl ''void'' ''form_cell_integral_otherwise''
                     [Decl ''double'' (Symbol ''A'' []) [],
                      Decl ''double'' (Symbol ''coords'' []) [''const'']]
                     (Block [Stmt ''list_tensor'',
                             Block [For ''ip'' (For ''j'' (For ''k'' (Stmt ''accumulate'')))] False]
                        False)
                     [''static'', ''inline'']),
                  kernel_integral_type = ''cell'',
                  kernel_subdomain_id = PStr ''otherwise'',
                  coefficient_numbers = [], oriented = False\<rparr>)"
    by code_simp
  from o n k show ?thesis by blast
qed

text \<open>
  The kernel of a bilinear form with one integral: the loop over the quadrature index
  is the outermost, the loops over the two argument indices are inside it; it is not the
  kernel with the argument loops outside.
\<close>

theorem index_ordering_arguments_not_first:
  "fst (compile_integral sample_env sample_run (sample_idata ''cell'' [''mass''] []) sample_fd
          ''form'' sample_parameters)
     = Inr (Some \<lparr>ast = Some (FunDecl ''void'' ''form_cell_integral_otherwise''
                     [Decl ''double'' (Symbol ''A'' []) [],
                      Decl ''double'' (Symbol ''coords'' []) [''const'']]
                     (Block [Stmt ''list_tensor'',
                             Block [For ''ip'' (For ''j'' (For ''k'' (Stmt ''accumulate'')))] False]
                        False)
                     [''static'', ''inline'']),
                  kernel_integral_type = ''cell'',
                  kernel_subdomain_id = PStr ''otherwise'',
                  coefficient_numbers = [], oriented = False\<rparr>)
   \<and> fst (compile_integral sample_env sample_run (sample_idata ''cell'' [''mass''] []) sample_fd
          ''form'' sample_parameters)
     \<noteq> Inr (Some \<lparr>ast = Some (FunDecl ''void'' ''form_cell_integral_otherwise''
                     [Decl ''double'' (Symbol ''A'' []) [],
                      Decl ''double'' (Symbol ''coords'' []) [''const'']]
                     (Block [Stmt ''list_tensor'',
                             Block [For ''j'' (For ''k'' (For ''ip'' (Stmt ''accumulate'')))] False]
                        False)
                     [''static'', ''inline'']),
                  kernel_integral_type = ''cell'',
                  kernel_subdomain_id = PStr ''otherwise'',
                  coefficient_numbers = [], oriented = False\<rparr>)"
  by code_simp

subsection \<open>Merging the fragments of the integrals\<close>

lemma length_zip_star:
  "length (zip_star xss) = (if xss = [] then 0 else Min (length ` set xss))"
proof (induction xss rule: zip_star.induct)
  case 1
  show ?case by simp
next
  case (2 xs)
  show ?case by simp
next
  case (3 xs ys yss)
  have "Min (length ` set (xs # ys # yss)) = min (length xs) (Min (length ` set (ys # yss)))"
    by (simp del: Min_insert add: Min_insert [of "length ` set (ys # yss)" "length xs", simplified])
  with 3 show ?case by simp
qed

lemma nth_zip_star:
  "j < length (zip_star xss) \<Longrightarrow> zip_star xss ! j = map (\<lambda>l. l ! j) xss"
proof (induction xss rule: zip_star.induct)
  case 1
  then show ?case by simp
next
  case (2 xs)
  then show ?case by simp
next
  case (3 xs ys yss)
  then show ?case by simp
qed

lemma sum_restrictions_positionwise: "sum_restrictions nf = positionwise_sums nf"
proof (rule nth_equalityI)
  show "length (sum_restrictions nf) = length (positionwise_sums nf)"
    by (simp add: sum_restrictions_def positionwise_sums_def length_zip_star)
next
  fix j assume "j < length (sum_restrictions nf)"
  then have j: "j < length (zip_star nf)" by (simp add: sum_restrictions_def)
  then have "j < (if nf = [] then 0 else Min (length ` set nf))"
    by (simp add: length_zip_star)
  with j show "sum_restrictions nf ! j = positionwise_sums nf ! j"
    by (simp add: sum_restrictions_def positionwise_sums_def nth_zip_star)
qed

text \<open>
  C2, as amended. \<open>compile_integral\<close> makes no check on the lists of fragments of the
  integrals. When the preamble and the loop over the integrals have succeeded with the
  lists \<open>nf\<close>, of whatever lengths, the result is what \<open>build_kernel_body\<close> makes of the
  sums position by position, as many as the shortest list has, the fragments beyond
  being dropped: the only errors are a missing \<open>coffee_licm\<close>, an error of
  \<open>build_kernel_body\<close> and the unbound loop variable of a group without integrals.
  When none of these occurs the call returns, with no kernel or with the kernel
  assembled from the body.
\<close>

theorem mismatched_fragments_summed:
  assumes p: "prepare_kernel env idata fd = Inr pre"
      and l: "integrals_loop env (integral_type idata) (ufl_cell (domain idata)) pre
                (remove_auto parameters) 0 (integrals idata) ([], [], Map.empty) = Inr (nf, qis, c)"
  shows "fst (compile_integral env run idata fd prefix parameters)
           = (case remove_auto parameters ''coffee_licm'' of
                None \<Rightarrow> Inl (KeyError ''coffee_licm'')
              | Some licm \<Rightarrow>
                 (case build_kernel_body env run (p_expressions pre) (positionwise_sums nf)
                         (qis @ p_argument_indices pre) licm
                         (Some (make_index_names (p_argument_indices pre) qis)) of
                    Inl e \<Rightarrow> Inl e
                  | Inr (None, orient) \<Rightarrow> Inr None
                  | Inr (Some body, orient) \<Rightarrow>
                     if integrals idata = [] then Inl (UnboundLocalError ''integral'')
                     else Inr (Some ((p_kernel pre)
                            \<lparr>oriented := orient,
                             ast := Some (FunDecl ''void''
                                      (prefix @ ''_'' @ integral_type idata @ ''_integral_'' @
                                       py_str (subdomain_id (last (integrals idata))))
                                      (if orient
                                       then take 2 (p_arglist pre)
                                            @ [Decl ''int *restrict *restrict''
                                                 (Symbol ''cell_orientations'' []) [''const'']]
                                            @ drop 2 (p_arglist pre)
                                       else p_arglist pre)
                                      (Block (p_prepare pre @ [body] @ p_finalise pre) False)
                                      [''static'', ''inline''])\<rparr>))))
       \<and> ((\<exists>licm. remove_auto parameters ''coffee_licm'' = Some licm
                  \<and> (\<forall>e. build_kernel_body env run (p_expressions pre) (positionwise_sums nf)
                            (qis @ p_argument_indices pre) licm
                            (Some (make_index_names (p_argument_indices pre) qis)) \<noteq> Inl e))
            \<and> integrals idata \<noteq> []
           \<longrightarrow> (\<exists>r. fst (compile_integral env run idata fd prefix parameters) = Inr r))"
proof -
  have first: "fst (compile_integral env run idata fd prefix parameters)
           = (case remove_auto parameters ''coffee_licm'' of
                None \<Rightarrow> Inl (KeyError ''coffee_licm'')
              | Some licm \<Rightarrow>
                 (case build_kernel_body env run (p_expressions pre) (positionwise_sums nf)
                         (qis @ p_argument_indices pre) licm
                         (Some (make_index_names (p_argument_indices pre) qis)) of
                    Inl e \<Rightarrow> Inl e
                  | Inr (None, orient) \<Rightarrow> Inr None
                  | Inr (Some body, orient) \<Rightarrow>
                     if integrals idata = [] then Inl (UnboundLocalError ''integral'')
                     else Inr (Some ((p_kernel pre)
                            \<lparr>oriented := orient,
                             ast := Some (FunDecl ''void''
                                      (prefix @ ''_'' @ integral_type idata @ ''_integral_'' @
                                       py_str (subdomain_id (last (integrals idata))))
                                      (if orient
                                       then take 2 (p_arglist pre)
                                            @ [Decl ''int *restrict *restrict''
                                                 (Symbol ''cell_orientations'' []) [''const'']]
                                            @ drop 2 (p_arglist pre)
                                       else p_arglist pre)
                                      (Block (p_prepare pre @ [body] @ p_finalise pre) False)
                                      [''static'', ''inline''])\<rparr>))))"
    unfolding compile_integral_finish [OF p l] finish_kernel_def Let_def sum_restrictions_positionwise
    by (simp add: insert_at_def split: option.splits sum.splits list.splits prod.splits)
  have second: "\<exists>r. fst (compile_integral env run idata fd prefix parameters) = Inr r"
    if h: "(\<exists>licm. remove_auto parameters ''coffee_licm'' = Some licm
                  \<and> (\<forall>e. build_kernel_body env run (p_expressions pre) (positionwise_sums nf)
                            (qis @ p_argument_indices pre) licm
                            (Some (make_index_names (p_argument_indices pre) qis)) \<noteq> Inl e))
            \<and> integrals idata \<noteq> []"
    using h unfolding first
    by (auto split: sum.splits option.splits prod.splits)
  from first second show ?thesis by (intro conjI impI)
qed

theorem mismatched_fragments_summed_witness:
  "length (fst (process sample_env ''interior_facet'' ''mass'' [] [] ''ip0'' [''i_v'', ''i_u'']
                  Map.empty Map.empty)) = 1
   \<and> length (fst (process sample_env ''interior_facet'' ''both_sides'' [] [] ''ip1'' [''i_v'', ''i_u'']
                  Map.empty Map.empty)) = 2
   \<and> positionwise_sums
        [map (\<lambda>e. IndexSum e ''ip0'') (sample_lower ''mass'' ''ip0'' [''i_v'', ''i_u'']),
         map (\<lambda>e. IndexSum e ''ip1'') (sample_lower ''both_sides'' ''ip1'' [''i_v'', ''i_u''])]
     = [Sum (Sum Zero (IndexSum (hd (sample_lower ''mass'' ''ip0'' [''i_v'', ''i_u''])) ''ip0''))
            (IndexSum (hd (sample_lower ''both_sides'' ''ip1'' [''i_v'', ''i_u''])) ''ip1'')]
   \<and> (\<exists>r. fst (compile_integral sample_env sample_run
                  (sample_idata ''interior_facet'' [''mass'', ''both_sides''] []) sample_fd ''form''
                  sample_parameters) = Inr r)"
proof -
  let ?idata = "sample_idata ''interior_facet'' [''mass'', ''both_sides''] []"
  let ?nf = "[map (\<lambda>e. IndexSum e ''ip0'') (sample_lower ''mass'' ''ip0'' [''i_v'', ''i_u'']),
              map (\<lambda>e. IndexSum e ''ip1'') (sample_lower ''both_sides'' ''ip1'' [''i_v'', ''i_u''])]"
  have "case prepare_kernel sample_env ?idata sample_fd of
          Inl er \<Rightarrow> False
        | Inr pre \<Rightarrow>
            (case integrals_loop sample_env (integral_type ?idata) (ufl_cell (domain ?idata)) pre
                    (remove_auto sample_parameters) 0 (integrals ?idata) ([], [], Map.empty) of
               Inl er \<Rightarrow> False
             | Inr (nf, qis, c) \<Rightarrow>
                 nf = ?nf \<and>
                 (case build_kernel_body sample_env sample_run (p_expressions pre)
                         (sum_restrictions ?nf) (qis @ p_argument_indices pre) (PBool False)
                         (Some (make_index_names (p_argument_indices pre) qis)) of
                    Inl er \<Rightarrow> False | Inr r \<Rightarrow> True))"
    by code_simp
  then obtain pre qis c where
    p: "prepare_kernel sample_env ?idata sample_fd = Inr pre" and
    l: "integrals_loop sample_env (integral_type ?idata) (ufl_cell (domain ?idata)) pre
          (remove_auto sample_parameters) 0 (integrals ?idata) ([], [], Map.empty) = Inr (?nf, qis, c)"
    and b: "\<forall>e. build_kernel_body sample_env sample_run (p_expressions pre)
                  (positionwise_sums ?nf) (qis @ p_argument_indices pre) (PBool False)
                  (Some (make_index_names (p_argument_indices pre) qis)) \<noteq> Inl e"
    unfolding sum_restrictions_positionwise
    by (auto split: sum.splits prod.splits)
  have k: "remove_auto sample_parameters ''coffee_licm'' = Some (PBool False)"
    by (simp add: remove_auto_apply sample_parameters_def sample_env_def)
  have i: "integrals ?idata \<noteq> []"
    by (simp add: sample_idata_def)
  from k b have ex: "\<exists>licm. remove_auto sample_parameters ''coffee_licm'' = Some licm
                  \<and> (\<forall>e. build_kernel_body sample_env sample_run (p_expressions pre)
                            (positionwise_sums ?nf) (qis @ p_argument_indices pre) licm
                            (Some (make_index_names (p_argument_indices pre) qis)) \<noteq> Inl e)"
    by (intro exI [of _ "PBool False"] conjI)
  from ex i have hyp: "(\<exists>licm. remove_auto sample_parameters ''coffee_licm'' = Some licm
                  \<and> (\<forall>e. build_kernel_body sample_env sample_run (p_expressions pre)
                            (positionwise_sums ?nf) (qis @ p_argument_indices pre) licm
                            (Some (make_index_names (p_argument_indices pre) qis)) \<noteq> Inl e))
            \<and> integrals ?idata \<noteq> []"
    by (rule conjI)
  note m = mismatched_fragments_summed [OF p l, of sample_run "''form''", THEN conjunct2]
  from m hyp
  have r: "\<exists>r. fst (compile_integral sample_env sample_run ?idata sample_fd ''form''
                  sample_parameters) = Inr r"
    by (rule mp)
  have a1: "length (fst (process sample_env ''interior_facet'' ''mass'' [] [] ''ip0'' [''i_v'', ''i_u'']
                  Map.empty Map.empty)) = 1"
    by (simp add: sample_env_def sample_lower_def Let_def)
  have a2: "length (fst (process sample_env ''interior_facet'' ''both_sides'' [] [] ''ip1'' [''i_v'', ''i_u'']
                  Map.empty Map.empty)) = 2"
    by (simp add: sample_env_def sample_lower_def Let_def)
  have s: "positionwise_sums ?nf
     = [Sum (Sum Zero (IndexSum (hd (sample_lower ''mass'' ''ip0'' [''i_v'', ''i_u''])) ''ip0''))
            (IndexSum (hd (sample_lower ''both_sides'' ''ip1'' [''i_v'', ''i_u''])) ''ip1'')]"
    unfolding sum_restrictions_positionwise [symmetric]
    by (simp add: sum_restrictions_def sample_lower_def Let_def)
  from a1 a2 s r show ?thesis by (intro conjI)
qed

text \<open>
  Two integrals in one group whose lists of fragments have the lengths 1 and 2: the call
  returns a kernel, built from the one sum, and raises nothing.
\<close>

theorem mismatched_fragments_compile:
  "length (fst (process sample_env ''interior_facet'' ''mass'' [] [] ''ip0'' [''i_v'', ''i_u'']
                  Map.empty Map.empty)) = 1
   \<and> length (fst (process sample_env ''interior_facet'' ''both_sides'' [] [] ''ip1'' [''i_v'', ''i_u'']
                  Map.empty Map.empty)) = 2
   \<and> fst (compile_integral sample_env sample_run
            (sample_idata ''interior_facet'' [''mass'', ''both_sides''] []) sample_fd ''form''
            sample_parameters)
     = Inr (Some \<lparr>ast = Some (FunDecl ''void'' ''form_interior_facet_integral_otherwise''
                     [Decl ''double'' (Symbol ''A'' []) [],
                      Decl ''double'' (Symbol ''coords'' []) [''const''],
                      Decl ''unsigned int'' (Symbol ''facet'' [2]) [''const'']]
                     (Block [Stmt ''list_tensor'',
                             Block [For ''j'' (For ''k'' (Stmt ''accumulate''))] False] False)
                     [''static'', ''inline'']),
                  kernel_integral_type = ''interior_facet'',
                  kernel_subdomain_id = PStr ''otherwise'',
                  coefficient_numbers = [], oriented = False\<rparr>)"
proof (intro conjI)
  show "length (fst (process sample_env ''interior_facet'' ''mass'' [] [] ''ip0'' [''i_v'', ''i_u'']
                  Map.empty Map.empty)) = 1"
    by (simp add: sample_env_def sample_lower_def Let_def)
  show "length (fst (process sample_env ''interior_facet'' ''both_sides'' [] [] ''ip1'' [''i_v'', ''i_u'']
                  Map.empty Map.empty)) = 2"
    by (simp add: sample_env_def sample_lower_def Let_def)
  show "fst (compile_integral sample_env sample_run
            (sample_idata ''interior_facet'' [''mass'', ''both_sides''] []) sample_fd ''form''
            sample_parameters)
     = Inr (Some \<lparr>ast = Some (FunDecl ''void'' ''form_interior_facet_integral_otherwise''
                     [Decl ''double'' (Symbol ''A'' []) [],
                      Decl ''double'' (Symbol ''coords'' []) [''const''],
                      Decl ''unsigned int'' (Symbol ''facet'' [2]) [''const'']]
                     (Block [Stmt ''list_tensor'',
                             Block [For ''j'' (For ''k'' (Stmt ''accumulate''))] False] False)
                     [''static'', ''inline'']),
                  kernel_integral_type = ''interior_facet'',
                  kernel_subdomain_id = PStr ''otherwise'',
                  coefficient_numbers = [], oriented = False\<rparr>)"
    by code_simp
qed

subsection \<open>An integral that lowers to zero\<close>

lemma build_kernel_body_empty:
  assumes "emit_operations env (zip rv (remove_componenttensors env ir))
             (get_indices run (index_ordering env run (remove_componenttensors env ir) po)) = Inr []"
  shows "build_kernel_body env run rv ir po licm names = Inr (None, False)"
  using assms by (simp add: build_kernel_body_def Let_def)

lemma compile_integral_empty:
  assumes "scheduled_operations env run idata fd parameters = Inr []"
  shows "compile_integral env run idata fd prefix parameters = (Inr None, remove_auto parameters)"
proof -
  from assms obtain pre nf qis c licm where
    p: "prepare_kernel env idata fd = Inr pre" and
    l: "integrals_loop env (integral_type idata) (ufl_cell (domain idata)) pre
          (remove_auto parameters) 0 (integrals idata) ([], [], Map.empty) = Inr (nf, qis, c)" and
    k: "remove_auto parameters ''coffee_licm'' = Some licm" and
    e: "emit_operations env
          (zip (p_expressions pre) (remove_componenttensors env (sum_restrictions nf)))
          (get_indices run (index_ordering env run (remove_componenttensors env (sum_restrictions nf))
                          (qis @ p_argument_indices pre))) = Inr []"
    by (auto simp: scheduled_operations_def Let_def split: sum.splits option.splits prod.splits)
  have "finish_kernel env run idata prefix (remove_auto parameters) pre nf qis = Inr None"
    by (simp add: finish_kernel_def Let_def k build_kernel_body_empty [OF e])
  then show ?thesis
    by (simp add: compile_integral_def Let_def p l)
qed

text \<open>
  C3. When the scheduler returns no operation for an integral, \<open>compile_integral\<close>
  returns \<open>None\<close> and raises nothing; the loop of \<open>compile_form\<close> then goes on with the
  list of kernels as it was, and a form with only this integral compiles to the empty list
  of kernels.
\<close>

theorem zero_integral_gives_no_kernel:
  "(scheduled_operations env run idata fd parameters = Inr [] \<longrightarrow>
      compile_integral env run idata fd prefix parameters = (Inr None, remove_auto parameters)
      \<and> compile_integrals env run fd prefix (idata # rest) parameters kernels
          = compile_integrals env run fd prefix rest (remove_auto parameters) kernels)
   \<and> (integral_data (compute_form_data env form) = [idata]
       \<and> scheduled_operations env run idata (compute_form_data env form) (default_parameters env) = Inr []
      \<longrightarrow> compile_form env run form prefix None = Inr [])"
proof (intro conjI impI)
  assume a: "scheduled_operations env run idata fd parameters = Inr []"
  show "compile_integral env run idata fd prefix parameters = (Inr None, remove_auto parameters)"
    by (rule compile_integral_empty [OF a])
  then show "compile_integrals env run fd prefix (idata # rest) parameters kernels
          = compile_integrals env run fd prefix rest (remove_auto parameters) kernels"
    by simp
next
  assume b: "integral_data (compute_form_data env form) = [idata]
       \<and> scheduled_operations env run idata (compute_form_data env form) (default_parameters env) = Inr []"
  then have "compile_integral env run idata (compute_form_data env form) prefix (default_parameters env)
               = (Inr None, remove_auto (default_parameters env))"
    by (simp add: compile_integral_empty)
  with b show "compile_form env run form prefix None = Inr []"
    by (simp add: compile_form_def Let_def)
qed

theorem zero_integral_gives_no_kernel_witness:
  "scheduled_operations sample_env sample_run (sample_idata ''cell'' [''zero''] []) sample_fd
     sample_parameters = Inr []
   \<and> fst (compile_integral sample_env sample_run (sample_idata ''cell'' [''zero''] []) sample_fd
            ''form'' sample_parameters) = Inr None
   \<and> integral_data (compute_form_data sample_env ''zero'') = [sample_idata ''cell'' [''zero''] [False, False, False]]
   \<and> compile_form sample_env sample_run ''zero'' ''form'' None = Inr []"
proof -
  let ?idata = "sample_idata ''cell'' [''zero''] []"
  let ?idata3 = "sample_idata ''cell'' [''zero''] [False, False, False]"
  have a: "scheduled_operations sample_env sample_run ?idata sample_fd sample_parameters = Inr []"
    by code_simp
  have b: "integral_data (compute_form_data sample_env ''zero'') = [?idata3]"
    by (simp add: sample_env_def sample_idata_def sample_integral_def)
  have c: "scheduled_operations sample_env sample_run ?idata3 (compute_form_data sample_env ''zero'')
             (default_parameters sample_env) = Inr []"
    by code_simp
  from zero_integral_gives_no_kernel
         [of sample_env sample_run ?idata sample_fd sample_parameters "''form''" "[]" "[]" "''zero''"] a
  have "fst (compile_integral sample_env sample_run ?idata sample_fd ''form'' sample_parameters) = Inr None"
    by simp
  moreover from zero_integral_gives_no_kernel
         [of sample_env sample_run ?idata3 sample_fd sample_parameters "''form''" "[]" "[]" "''zero''"] b c
  have "compile_form sample_env sample_run ''zero'' ''form'' None = Inr []"
    by blast
  ultimately show ?thesis using a b by blast
qed

subsection \<open>Quadrature degree and quadrature rule\<close>




lemma remove_auto_degree_auto:
  "remove_auto (parameters(''quadrature_degree'' \<mapsto> PStr ''auto''))
     = remove_auto (parameters(''quadrature_degree'' := None))"
  by (rule ext) (auto simp: remove_auto_apply)

lemma remove_auto_rule_auto:
  "remove_auto (parameters(''quadrature_rule'' \<mapsto> PStr ''auto''))
     = remove_auto (parameters(''quadrature_rule'' := None))"
  by (rule ext) (auto simp: remove_auto_apply)

lemma integral_params_explicit_wins:
  "(case integral_params integral (remove_auto parameters) k of Some v \<Rightarrow> v | None \<Rightarrow> fallback)
     = (if k = ''quadrature_degree'' \<or> k = ''quadrature_rule''
        then explicit_wins parameters (metadata integral) k fallback
        else (case (metadata integral ++ parameters) k of Some v \<Rightarrow> v | None \<Rightarrow> fallback))"
  by (auto simp: integral_params_def remove_auto_apply explicit_wins_def map_add_def
           split: option.splits)

text \<open>
  C6, as amended. For an integral whose parameters hold an estimated degree, the round
  of the loop resolves the quadrature degree with the precedence an entry of the
  dictionary of the caller other than \<open>auto\<close>, else the entry of the metadata of the
  integral, else the estimated degree; it resolves the quadrature rule in the same way,
  the last resort being the rule that \<open>create_quadrature\<close> gives for the resolved
  degree; a rule that is not a \<open>QuadratureRule\<close> raises, and otherwise the integrand is
  lowered with the points and weights of the resolved rule. An \<open>auto\<close> in the dictionary
  of the caller counts as no entry: the call returns the same, and leaves the dictionary
  in the same state, as with the key removed. An \<open>auto\<close> in the metadata is taken as the
  value.
\<close>

theorem quadrature_resolution_explicit_wins:
  assumes est: "integral_params integral (remove_auto parameters) ''estimated_polynomial_degree'' = Some e"
  shows "lower_integral env it cell pre (remove_auto parameters) i integral (nf, qis, c)
           = (let degree = explicit_wins parameters (metadata integral) ''quadrature_degree'' e;
                  rule = explicit_wins parameters (metadata integral) ''quadrature_rule''
                           (PRule (create_quadrature env cell it degree))
              in case rule of
                   PRule q \<Rightarrow>
                     (let ip = gem_Index env (''ip'' @ string_of_nat i);
                          lowered = process env it
                                      (replace_coordinates env (integrand integral) (p_coordinates pre))
                                      (TabulationManager env it cell (points q)) (weights q) ip
                                      (p_argument_indices pre) (p_coefficient_map pre) c
                      in case remove_auto parameters ''unroll_indexsum'' of
                           None \<Rightarrow> Inl (KeyError ''unroll_indexsum'')
                         | Some u \<Rightarrow>
                             Inr (nf @ [map (\<lambda>x. if ip \<in> set (free_indices x) then IndexSum x ip else x)
                                         (if truthy u then unroll_indexsum env (fst lowered) u
                                          else fst lowered)],
                                  qis @ [ip], snd lowered))
                 | other \<Rightarrow>
                     Inl (ValueError (''Expected to find a QuadratureRule object, not a '' @ type_repr other)))
       \<and> compile_integral env run idata fd prefix (parameters(''quadrature_degree'' \<mapsto> PStr ''auto''))
           = compile_integral env run idata fd prefix (parameters(''quadrature_degree'' := None))
       \<and> compile_integral env run idata fd prefix (parameters(''quadrature_rule'' \<mapsto> PStr ''auto''))
           = compile_integral env run idata fd prefix (parameters(''quadrature_rule'' := None))
       \<and> (metadata integral ''quadrature_degree'' = Some (PStr ''auto'')
            \<and> (parameters ''quadrature_degree'' = None
                \<or> parameters ''quadrature_degree'' = Some (PStr ''auto''))
           \<longrightarrow> explicit_wins parameters (metadata integral) ''quadrature_degree'' e = PStr ''auto'')"
proof -
  let ?params = "integral_params integral (remove_auto parameters)"
  let ?degree = "explicit_wins parameters (metadata integral) ''quadrature_degree'' e"
  have d: "resolve_quadrature_degree ?params = Inr ?degree"
    using integral_params_explicit_wins [where integral = integral and parameters = parameters
            and k = "''quadrature_degree''" and fallback = e]
    by (simp add: resolve_quadrature_degree_def est)
  have r: "resolve_quad_rule env cell it ?params ?degree
             = explicit_wins parameters (metadata integral) ''quadrature_rule''
                 (PRule (create_quadrature env cell it ?degree))"
    using integral_params_explicit_wins [where integral = integral and parameters = parameters
            and k = "''quadrature_rule''" and fallback = "PRule (create_quadrature env cell it ?degree)"]
    by (simp add: resolve_quad_rule_def Let_def)
  have a: "lower_integral env it cell pre (remove_auto parameters) i integral (nf, qis, c)
           = (let degree = explicit_wins parameters (metadata integral) ''quadrature_degree'' e;
                  rule = explicit_wins parameters (metadata integral) ''quadrature_rule''
                           (PRule (create_quadrature env cell it degree))
              in case rule of
                   PRule q \<Rightarrow>
                     (let ip = gem_Index env (''ip'' @ string_of_nat i);
                          lowered = process env it
                                      (replace_coordinates env (integrand integral) (p_coordinates pre))
                                      (TabulationManager env it cell (points q)) (weights q) ip
                                      (p_argument_indices pre) (p_coefficient_map pre) c
                      in case remove_auto parameters ''unroll_indexsum'' of
                           None \<Rightarrow> Inl (KeyError ''unroll_indexsum'')
                         | Some u \<Rightarrow>
                             Inr (nf @ [map (\<lambda>x. if ip \<in> set (free_indices x) then IndexSum x ip else x)
                                         (if truthy u then unroll_indexsum env (fst lowered) u
                                          else fst lowered)],
                                  qis @ [ip], snd lowered))
                 | other \<Rightarrow>
                     Inl (ValueError (''Expected to find a QuadratureRule object, not a '' @ type_repr other)))"
    by (simp add: Let_def d r split: pyval.splits option.splits prod.splits)
  have b1: "compile_integral env run idata fd prefix (parameters(''quadrature_degree'' \<mapsto> PStr ''auto''))
           = compile_integral env run idata fd prefix (parameters(''quadrature_degree'' := None))"
    by (rule compile_integral_remove_auto [OF remove_auto_degree_auto])
  have b2: "compile_integral env run idata fd prefix (parameters(''quadrature_rule'' \<mapsto> PStr ''auto''))
           = compile_integral env run idata fd prefix (parameters(''quadrature_rule'' := None))"
    by (rule compile_integral_remove_auto [OF remove_auto_rule_auto])
  have m: "metadata integral ''quadrature_degree'' = Some (PStr ''auto'')
            \<and> (parameters ''quadrature_degree'' = None
                \<or> parameters ''quadrature_degree'' = Some (PStr ''auto''))
           \<longrightarrow> explicit_wins parameters (metadata integral) ''quadrature_degree'' e = PStr ''auto''"
    by (auto simp: explicit_wins_def)
  from a b1 b2 m show ?thesis by (intro conjI)
qed

theorem quadrature_resolution_explicit_wins_witness:
  "integral_params
     ((sample_integral ''mass'')
        \<lparr>metadata := [''estimated_polynomial_degree'' \<mapsto> PInt 2, ''quadrature_degree'' \<mapsto> PInt 5]\<rparr>)
     (remove_auto (sample_parameters(''quadrature_degree'' \<mapsto> PInt 4)))
     ''estimated_polynomial_degree'' = Some (PInt 2)
   \<and> explicit_wins (sample_parameters(''quadrature_degree'' \<mapsto> PInt 4))
        [''estimated_polynomial_degree'' \<mapsto> PInt 2, ''quadrature_degree'' \<mapsto> PInt 5]
        ''quadrature_degree'' (PInt 2) = PInt 4
   \<and> explicit_wins sample_parameters
        [''estimated_polynomial_degree'' \<mapsto> PInt 2, ''quadrature_degree'' \<mapsto> PInt 5]
        ''quadrature_degree'' (PInt 2) = PInt 5
   \<and> explicit_wins sample_parameters [''estimated_polynomial_degree'' \<mapsto> PInt 2]
        ''quadrature_degree'' (PInt 2) = PInt 2
   \<and> map_sum id fst
        (lower_integral sample_env ''cell'' \<lparr>cellname = ''triangle''\<rparr>
           \<lparr>p_kernel = Kernel ''cell'' (PStr ''otherwise''), p_arglist = [], p_prepare = [],
            p_expressions = [], p_finalise = [], p_argument_indices = [''i_v'', ''i_u''],
            p_coordinates = ''x'', p_coefficient_map = Map.empty\<rparr>
           (remove_auto (sample_parameters(''quadrature_degree'' \<mapsto> PInt 4))) 0
           ((sample_integral ''mass'')
              \<lparr>metadata := [''estimated_polynomial_degree'' \<mapsto> PInt 2, ''quadrature_degree'' \<mapsto> PInt 5]\<rparr>)
           ([], [], Map.empty))
     = Inr [map (\<lambda>e. IndexSum e ''ip0'') (sample_lower ''mass'' ''ip0'' [''i_v'', ''i_u''])]"
proof -
  let ?J = "(sample_integral ''mass'')
        \<lparr>metadata := [''estimated_polynomial_degree'' \<mapsto> PInt 2, ''quadrature_degree'' \<mapsto> PInt 5]\<rparr>"
  let ?P = "sample_parameters(''quadrature_degree'' \<mapsto> PInt 4)"
  let ?pre = "\<lparr>p_kernel = Kernel ''cell'' (PStr ''otherwise''), p_arglist = [], p_prepare = [],
            p_expressions = [], p_finalise = [], p_argument_indices = [''i_v'', ''i_u''],
            p_coordinates = ''x'', p_coefficient_map = Map.empty\<rparr>"
  have est: "integral_params ?J (remove_auto ?P) ''estimated_polynomial_degree'' = Some (PInt 2)"
    by (simp add: integral_params_def remove_auto_apply sample_parameters_def sample_env_def
          map_add_def)
  note t = quadrature_resolution_explicit_wins [OF est, of sample_env "''cell''"
             "\<lparr>cellname = ''triangle''\<rparr>" ?pre 0 "[]" "[]" Map.empty, THEN conjunct1]
  have a: "explicit_wins ?P [''estimated_polynomial_degree'' \<mapsto> PInt 2, ''quadrature_degree'' \<mapsto> PInt 5]
             ''quadrature_degree'' (PInt 2) = PInt 4"
    by (simp add: explicit_wins_def)
  have b: "explicit_wins sample_parameters
             [''estimated_polynomial_degree'' \<mapsto> PInt 2, ''quadrature_degree'' \<mapsto> PInt 5]
             ''quadrature_degree'' (PInt 2) = PInt 5"
    by (simp add: explicit_wins_def sample_parameters_def sample_env_def)
  have c: "explicit_wins sample_parameters [''estimated_polynomial_degree'' \<mapsto> PInt 2]
             ''quadrature_degree'' (PInt 2) = PInt 2"
    by (simp add: explicit_wins_def sample_parameters_def sample_env_def)
  have d: "map_sum id fst
        (lower_integral sample_env ''cell'' \<lparr>cellname = ''triangle''\<rparr> ?pre (remove_auto ?P) 0 ?J
           ([], [], Map.empty))
     = Inr [map (\<lambda>e. IndexSum e ''ip0'') (sample_lower ''mass'' ''ip0'' [''i_v'', ''i_u''])]"
    unfolding t by code_simp
  from est a b c d show ?thesis by (intro conjI)
qed

text \<open>
  An integral whose metadata hold \<open>auto\<close> for \<open>quadrature_rule\<close>, compiled with the
  default parameters: the call raises the \<open>ValueError\<close>, where the same integral without
  the entry compiles to a kernel. The \<open>auto\<close> of the metadata is not treated as absent.
\<close>

theorem metadata_auto_is_not_absent:
  "fst (compile_integral sample_env sample_run
          ((sample_idata ''cell'' [] [])
             \<lparr>integrals := [(sample_integral ''mass'')
                 \<lparr>metadata := [''estimated_polynomial_degree'' \<mapsto> PInt 2,
                               ''quadrature_rule'' \<mapsto> PStr ''auto'']\<rparr>]\<rparr>)
          sample_fd ''form'' sample_parameters)
     = Inl (ValueError (''Expected to find a QuadratureRule object, not a '' @ type_repr (PStr ''auto'')))
   \<and> fst (compile_integral sample_env sample_run
          ((sample_idata ''cell'' [] [])
             \<lparr>integrals := [(sample_integral ''mass'')
                 \<lparr>metadata := [''estimated_polynomial_degree'' \<mapsto> PInt 2]\<rparr>]\<rparr>)
          sample_fd ''form'' sample_parameters)
     = Inr (Some \<lparr>ast = Some (FunDecl ''void'' ''form_cell_integral_otherwise''
                     [Decl ''double'' (Symbol ''A'' []) [],
                      Decl ''double'' (Symbol ''coords'' []) [''const'']]
                     (Block [Stmt ''list_tensor'',
                             Block [For ''ip'' (For ''j'' (For ''k'' (Stmt ''accumulate'')))] False]
                        False)
                     [''static'', ''inline'']),
                  kernel_integral_type = ''cell'',
                  kernel_subdomain_id = PStr ''otherwise'',
                  coefficient_numbers = [], oriented = False\<rparr>)"
  by code_simp

subsection \<open>The argument list of the kernel\<close>

lemma enabled_positions_Cons:
  "enabled_positions (on # ons) = (if on then [0] else []) @ map Suc (enabled_positions ons)"
proof -
  have "[0..<length (on # ons)] = 0 # map Suc [0..<length ons]"
    by (simp add: upt_conv_Cons map_Suc_upt del: upt_Suc)
  then show ?thesis
    by (simp add: enabled_positions_def filter_map o_def)
qed

lemma coefficient_loop_result:
  "coefficient_loop env it fd i ons (numbers, arglist, prepare, cmap)
     = Inr (numbers1, arglist1, prepare1, cmap1) \<Longrightarrow>
   numbers1 = numbers @ map (\<lambda>j. original_coefficient_positions fd ! j)
                          (map (\<lambda>j. i + j) (enabled_positions ons))
   \<and> arglist1 = arglist @ map (\<lambda>j. fst (prepare_coefficient env it (reduced_coefficients fd ! j)
                                          (''w_'' @ string_of_nat j) None))
                             (map (\<lambda>j. i + j) (enabled_positions ons))
   \<and> (\<forall>j \<in> set (enabled_positions ons).
         i + j < length (original_coefficient_positions fd) \<and> i + j < length (reduced_coefficients fd))"
proof (induction ons arbitrary: i numbers arglist prepare cmap)
  case Nil
  then show ?case by (simp add: enabled_positions_def)
next
  case (Cons on ons)
  show ?case
  proof (cases on)
    case False
    with Cons.prems have
      "coefficient_loop env it fd (Suc i) ons (numbers, arglist, prepare, cmap)
         = Inr (numbers1, arglist1, prepare1, cmap1)"
      by simp
    from Cons.IH [OF this] False show ?thesis
      by (simp add: enabled_positions_Cons o_def)
  next
    case True
    with Cons.prems have
      r: "i < length (reduced_coefficients fd)" and o: "i < length (original_coefficient_positions fd)"
      by (auto split: if_splits)
    obtain funarg stmts expression where
      pc: "prepare_coefficient env it (reduced_coefficients fd ! i) (''w_'' @ string_of_nat i) None
             = (funarg, stmts, expression)"
      by (cases "prepare_coefficient env it (reduced_coefficients fd ! i) (''w_'' @ string_of_nat i) None")
         auto
    from Cons.prems True r o pc have
      "coefficient_loop env it fd (Suc i) ons
         (numbers @ [original_coefficient_positions fd ! i], arglist @ [funarg], prepare @ stmts,
          cmap(reduced_coefficients fd ! i \<mapsto> expression))
         = Inr (numbers1, arglist1, prepare1, cmap1)"
      by (simp add: Let_def)
    from Cons.IH [OF this] True r o pc show ?thesis
      by (simp add: enabled_positions_Cons o_def)
  qed
qed

lemma prepare_kernel_result:
  assumes "prepare_kernel env idata fd = Inr pre"
  shows "coefficient_numbers (p_kernel pre)
           = map (\<lambda>j. original_coefficient_positions fd ! j) (enabled_positions (enabled_coefficients idata))"
    and "\<exists>a c. p_arglist pre
           = [a, c] @ map (\<lambda>j. fst (prepare_coefficient env (integral_type idata)
                                       (reduced_coefficients fd ! j) (''w_'' @ string_of_nat j) None))
                        (enabled_positions (enabled_coefficients idata))
             @ facet_arguments (integral_type idata)"
    and "\<forall>j \<in> set (enabled_positions (enabled_coefficients idata)).
           j < length (original_coefficient_positions fd) \<and> j < length (reduced_coefficients fd)"
proof -
  from assms obtain a c stmts cm numbers arglist prepare cmap where
    l: "coefficient_loop env (integral_type idata) fd 0 (enabled_coefficients idata)
          ([], [a, c], stmts, cm) = Inr (numbers, arglist, prepare, cmap)"
    and k: "coefficient_numbers (p_kernel pre) = numbers"
    and g: "p_arglist pre = arglist @ facet_arguments (integral_type idata)"
    by (auto simp: prepare_kernel_def Let_def Kernel_def
             split: prod.splits list.splits gem.splits sum.splits if_splits)
  from coefficient_loop_result [OF l] k g
  show "coefficient_numbers (p_kernel pre)
           = map (\<lambda>j. original_coefficient_positions fd ! j) (enabled_positions (enabled_coefficients idata))"
    and "\<exists>a c. p_arglist pre
           = [a, c] @ map (\<lambda>j. fst (prepare_coefficient env (integral_type idata)
                                       (reduced_coefficients fd ! j) (''w_'' @ string_of_nat j) None))
                        (enabled_positions (enabled_coefficients idata))
             @ facet_arguments (integral_type idata)"
    and "\<forall>j \<in> set (enabled_positions (enabled_coefficients idata)).
           j < length (original_coefficient_positions fd) \<and> j < length (reduced_coefficients fd)"
    by (simp_all add: o_def)
qed

lemma finish_kernel_result:
  assumes "finish_kernel env run idata prefix parameters pre nf qis = Inr (Some k)"
  shows "coefficient_numbers k = coefficient_numbers (p_kernel pre)"
    and "\<exists>a. ast k = Some a
            \<and> fundecl_args a = (if oriented k
                                then insert_at 2 (Decl ''int *restrict *restrict''
                                                    (Symbol ''cell_orientations'' []) [''const''])
                                       (p_arglist pre)
                                else p_arglist pre)"
  using assms
  by (auto simp: finish_kernel_def Let_def
           split: option.splits sum.splits prod.splits list.splits if_splits)

lemma compile_integral_result:
  assumes "compile_integral env run idata fd prefix parameters = (Inr (Some k), p1)"
  shows "\<exists>pre nf qis. prepare_kernel env idata fd = Inr pre
           \<and> finish_kernel env run idata prefix (remove_auto parameters) pre nf qis = Inr (Some k)"
  using assms
  by (auto simp: compile_integral_def Let_def split: sum.splits prod.splits)

text \<open>
  The argument list of a compiled kernel: the buffer of the arguments, the coordinates,
  the cell orientations when the kernel is oriented, one buffer per enabled coefficient,
  and the facet argument.
\<close>

lemma compiled_kernel_arguments:
  assumes "compile_integral env run idata fd prefix parameters = (Inr (Some k), p1)"
  shows "\<exists>a front. ast k = Some a \<and> length front = (if oriented k then 3 else 2)
           \<and> fundecl_args a
               = front @ map (\<lambda>j. fst (prepare_coefficient env (integral_type idata)
                                          (reduced_coefficients fd ! j) (''w_'' @ string_of_nat j) None))
                           (enabled_positions (enabled_coefficients idata))
                 @ facet_arguments (integral_type idata)"
proof -
  from compile_integral_result [OF assms] obtain pre nf qis where
    p: "prepare_kernel env idata fd = Inr pre" and
    f: "finish_kernel env run idata prefix (remove_auto parameters) pre nf qis = Inr (Some k)"
    by blast
  let ?cs = "map (\<lambda>j. fst (prepare_coefficient env (integral_type idata)
                             (reduced_coefficients fd ! j) (''w_'' @ string_of_nat j) None))
               (enabled_positions (enabled_coefficients idata))"
  let ?d = "Decl ''int *restrict *restrict'' (Symbol ''cell_orientations'' []) [''const'']"
  from prepare_kernel_result(2) [OF p] obtain a c where
    g: "p_arglist pre = [a, c] @ ?cs @ facet_arguments (integral_type idata)"
    by blast
  from finish_kernel_result(2) [OF f] obtain t where
    t: "ast k = Some t" and
    u: "fundecl_args t = (if oriented k then insert_at 2 ?d (p_arglist pre) else p_arglist pre)"
    by blast
  show ?thesis
  proof (cases "oriented k")
    case True
    with u g have "fundecl_args t = [a, c, ?d] @ ?cs @ facet_arguments (integral_type idata)"
      by (simp add: insert_at_def)
    with t True show ?thesis by (intro exI [of _ t] exI [of _ "[a, c, ?d]"]) simp
  next
    case False
    with u g have "fundecl_args t = [a, c] @ ?cs @ facet_arguments (integral_type idata)"
      by simp
    with t False show ?thesis by (intro exI [of _ t] exI [of _ "[a, c]"]) simp
  qed
qed

text \<open>
  C7. The argument list of a compiled kernel ends with one facet argument of one unsigned
  integer for the exterior facet types, with one of two unsigned integers for the
  interior facet types, and has no facet argument for any other type, such as \<open>cell\<close>:
  then it consists of the arguments buffer, the coordinates, the cell orientations when
  they are used, and the buffers of the enabled coefficients.
\<close>

theorem facet_argument_of_kernel:
  assumes "compile_integral env run idata fd prefix parameters = (Inr (Some k), p1)"
  shows "\<exists>a args. ast k = Some a
           \<and> length args = (if oriented k then 3 else 2)
                             + length (enabled_positions (enabled_coefficients idata))
           \<and> fundecl_args a
               = args @ (if integral_type idata = ''exterior_facet''
                            \<or> integral_type idata = ''exterior_facet_vert''
                         then [Decl ''unsigned int'' (Symbol ''facet'' [1]) [''const'']]
                         else if integral_type idata = ''interior_facet''
                                 \<or> integral_type idata = ''interior_facet_vert''
                         then [Decl ''unsigned int'' (Symbol ''facet'' [2]) [''const'']]
                         else [])"
proof -
  let ?cs = "map (\<lambda>j. fst (prepare_coefficient env (integral_type idata)
                             (reduced_coefficients fd ! j) (''w_'' @ string_of_nat j) None))
               (enabled_positions (enabled_coefficients idata))"
  from compiled_kernel_arguments [OF assms] obtain a front where
    a: "ast k = Some a" and l: "length front = (if oriented k then 3 else 2)"
    and f: "fundecl_args a = front @ ?cs @ facet_arguments (integral_type idata)"
    by blast
  have "length (front @ ?cs) = (if oriented k then 3 else 2)
                             + length (enabled_positions (enabled_coefficients idata))"
    using l by simp
  moreover have "fundecl_args a = (front @ ?cs) @ facet_arguments (integral_type idata)"
    using f by simp
  ultimately show ?thesis
    using a unfolding facet_arguments_def by (intro exI [of _ a] exI [of _ "front @ ?cs"]) simp
qed

lemma sample_compile_pair:
  "fst (compile_integral sample_env sample_run idata sample_fd prefix sample_parameters) = Inr (Some k)
   \<Longrightarrow> compile_integral sample_env sample_run idata sample_fd prefix sample_parameters
         = (Inr (Some k), remove_auto sample_parameters)"
  by (rule prod_eqI) (simp_all add: compile_integral_parameters)

lemma sample_idata_fields:
  "integral_type (sample_idata it fs en) = it"
  "enabled_coefficients (sample_idata it fs en) = en"
  by (simp_all add: sample_idata_def)

theorem facet_argument_of_kernel_witness:
  "(\<exists>k a args.
      fst (compile_integral sample_env sample_run
             (sample_idata ''interior_facet'' [''mass''] [True, False, True]) sample_fd ''form''
             sample_parameters) = Inr (Some k)
      \<and> ast k = Some a \<and> length args = 4
      \<and> fundecl_args a = args @ [Decl ''unsigned int'' (Symbol ''facet'' [2]) [''const'']])
   \<and> (\<exists>k a args.
      fst (compile_integral sample_env sample_run
             (sample_idata ''exterior_facet'' [''mass''] [True, False, True]) sample_fd ''form''
             sample_parameters) = Inr (Some k)
      \<and> ast k = Some a \<and> length args = 4
      \<and> fundecl_args a = args @ [Decl ''unsigned int'' (Symbol ''facet'' [1]) [''const'']])
   \<and> (\<exists>k a args.
      fst (compile_integral sample_env sample_run
             (sample_idata ''cell'' [''mass''] [True, False, True]) sample_fd ''form''
             sample_parameters) = Inr (Some k)
      \<and> ast k = Some a \<and> length args = 4 \<and> fundecl_args a = args)"
proof -
  have pos: "length (enabled_positions [True, False, True]) = 2"
    by code_simp
  have w: "\<exists>k a args.
      fst (compile_integral sample_env sample_run (sample_idata it [''mass''] [True, False, True])
             sample_fd ''form'' sample_parameters) = Inr (Some k)
      \<and> ast k = Some a \<and> length args = 4
      \<and> fundecl_args a = args @ facet_arguments it"
    if c: "case fst (compile_integral sample_env sample_run (sample_idata it [''mass''] [True, False, True])
                      sample_fd ''form'' sample_parameters) of
             Inl er \<Rightarrow> False | Inr None \<Rightarrow> False | Inr (Some k) \<Rightarrow> \<not> oriented k" for it
  proof -
    from c obtain k where
      k: "fst (compile_integral sample_env sample_run (sample_idata it [''mass''] [True, False, True])
                sample_fd ''form'' sample_parameters) = Inr (Some k)"
      and o: "\<not> oriented k"
      by (auto split: sum.splits option.splits)
    from facet_argument_of_kernel [OF sample_compile_pair [OF k]]
    obtain a args where
      a: "ast k = Some a" and
      l: "length args = (if oriented k then 3 else 2) + length (enabled_positions [True, False, True])" and
      f: "fundecl_args a = args @ facet_arguments it"
      unfolding sample_idata_fields facet_arguments_def by auto
    from l o pos have "length args = 4" by simp
    with k a f show ?thesis by blast
  qed
  have "\<exists>k a args.
      fst (compile_integral sample_env sample_run
             (sample_idata ''interior_facet'' [''mass''] [True, False, True]) sample_fd ''form''
             sample_parameters) = Inr (Some k)
      \<and> ast k = Some a \<and> length args = 4
      \<and> fundecl_args a = args @ facet_arguments ''interior_facet''"
    by (rule w) code_simp
  moreover have "\<exists>k a args.
      fst (compile_integral sample_env sample_run
             (sample_idata ''exterior_facet'' [''mass''] [True, False, True]) sample_fd ''form''
             sample_parameters) = Inr (Some k)
      \<and> ast k = Some a \<and> length args = 4
      \<and> fundecl_args a = args @ facet_arguments ''exterior_facet''"
    by (rule w) code_simp
  moreover have "\<exists>k a args.
      fst (compile_integral sample_env sample_run
             (sample_idata ''cell'' [''mass''] [True, False, True]) sample_fd ''form''
             sample_parameters) = Inr (Some k)
      \<and> ast k = Some a \<and> length args = 4
      \<and> fundecl_args a = args @ facet_arguments ''cell''"
    by (rule w) code_simp
  ultimately show ?thesis
    by (simp add: facet_arguments_def)
qed

text \<open>
  C8. The tuple \<open>coefficient_numbers\<close> of a compiled kernel lists, in increasing order of
  the position in the mask \<open>enabled_coefficients\<close>, the original position of each
  coefficient whose entry in the mask is true, and the argument list holds exactly one
  buffer for each of them, in the same order, between the leading arguments and the facet
  argument; a coefficient whose entry is false has neither.
\<close>

theorem coefficient_numbers_of_kernel:
  assumes "compile_integral env run idata fd prefix parameters = (Inr (Some k), p1)"
  shows "coefficient_numbers k
           = map (\<lambda>i. original_coefficient_positions fd ! i)
               (enabled_positions (enabled_coefficients idata))
       \<and> (\<forall>i \<in> set (enabled_positions (enabled_coefficients idata)).
            i < length (original_coefficient_positions fd) \<and> i < length (reduced_coefficients fd))
       \<and> (\<exists>a front. ast k = Some a \<and> length front = (if oriented k then 3 else 2)
            \<and> fundecl_args a
                = front @ map (\<lambda>i. fst (prepare_coefficient env (integral_type idata)
                                           (reduced_coefficients fd ! i) (''w_'' @ string_of_nat i) None))
                            (enabled_positions (enabled_coefficients idata))
                  @ facet_arguments (integral_type idata))"
proof -
  from compile_integral_result [OF assms] obtain pre nf qis where
    p: "prepare_kernel env idata fd = Inr pre" and
    f: "finish_kernel env run idata prefix (remove_auto parameters) pre nf qis = Inr (Some k)"
    by blast
  from finish_kernel_result(1) [OF f] prepare_kernel_result(1) [OF p]
  have "coefficient_numbers k
           = map (\<lambda>i. original_coefficient_positions fd ! i)
               (enabled_positions (enabled_coefficients idata))"
    by simp
  with prepare_kernel_result(3) [OF p] compiled_kernel_arguments [OF assms]
  show ?thesis by blast
qed

theorem coefficient_numbers_of_kernel_witness:
  "\<exists>k a front.
      fst (compile_integral sample_env sample_run
             (sample_idata ''cell'' [''mass''] [True, False, True]) sample_fd ''form''
             sample_parameters) = Inr (Some k)
      \<and> coefficient_numbers k = [0, 5]
      \<and> ast k = Some a \<and> length front = 2
      \<and> fundecl_args a = front @ [Decl ''double'' (Symbol ''w_0'' []) [''const''],
                                   Decl ''double'' (Symbol ''w_2'' []) [''const'']]"
proof -
  let ?idata = "sample_idata ''cell'' [''mass''] [True, False, True]"
  have pos: "enabled_positions [True, False, True] = [0, 2]"
    by code_simp
  have s0: "string_of_nat 0 = ''0''" and s2: "string_of_nat 2 = ''2''"
    by code_simp+
  have "case fst (compile_integral sample_env sample_run ?idata sample_fd ''form'' sample_parameters) of
          Inl er \<Rightarrow> False | Inr None \<Rightarrow> False | Inr (Some k) \<Rightarrow> \<not> oriented k"
    by code_simp
  then obtain k where
    k: "fst (compile_integral sample_env sample_run ?idata sample_fd ''form'' sample_parameters)
          = Inr (Some k)"
    and o: "\<not> oriented k"
    by (auto split: sum.splits option.splits)
  from coefficient_numbers_of_kernel [OF sample_compile_pair [OF k]] o
  have "coefficient_numbers k = [0, 5]
      \<and> (\<exists>a front. ast k = Some a \<and> length front = 2
      \<and> fundecl_args a = front @ [Decl ''double'' (Symbol ''w_0'' []) [''const''],
                                   Decl ''double'' (Symbol ''w_2'' []) [''const'']])"
    by (simp add: pos sample_idata_fields sample_fd_def sample_env_def facet_arguments_def s0 s2)
  with k show ?thesis by blast
qed

end
